theory Spec2Isabelle
  imports Main "HOL-Library.Word" "HOL-Library.AList" "HOL-Library.List_Lexorder"
    "HOL-Library.Char_ord" "HOL-Library.Stream"
begin

unbundle bit_operations_syntax

section \<open>SecureShare: consent-gated disclosure, field encryption and audit log\<close>

text \<open>
  A shallow embedding of the SecureShare backend (Express controllers over Mongoose
  models) and of the partner backend's decryption service. Collections are lists of
  records; a document's identity is its position in the list. Handlers take the request,
  the clock reading and the collections, and return the HTTP outcome with the updated
  collections. Times are milliseconds since the epoch.

  Part I holds the definitions, Part II the theorems.
\<close>

chapter \<open>Part I: definitions\<close>

section \<open>HTTP outcomes\<close>

text \<open>
  A handler that ends in \<^verbatim>\<open>res.status(n).json({status: 'error', message: m})\<close> is the
  value \<open>HttpError n m\<close>.
\<close>

datatype http_error = HttpError nat string

text \<open>\<^verbatim>\<open>Array.prototype.join(sep)\<close> on a list of strings.\<close>

fun join :: "string \<Rightarrow> string list \<Rightarrow> string" where
  "join sep [] = []"
| "join sep [x] = x"
| "join sep (x # y # ys) = x @ sep @ join sep (y # ys)"

text \<open>
  JavaScript truthiness of an optional string: \<^verbatim>\<open>undefined\<close> and the empty string are
  falsy.
\<close>

fun truthy :: "string option \<Rightarrow> bool" where
  "truthy None = False"
| "truthy (Some s) = (s \<noteq> [])"

text \<open>
  \<^verbatim>\<open>Model.findOne(filter)\<close>: the position of the first document that matches.
\<close>

fun findOne :: "('a \<Rightarrow> bool) \<Rightarrow> 'a list \<Rightarrow> nat option" where
  "findOne P [] = None"
| "findOne P (x # xs) = (if P x then Some 0 else map_option Suc (findOne P xs))"

section \<open>Consents, partners, users\<close>

text \<open>
  \<^verbatim>\<open>consentSchema\<close> (models/consentModel.js), with the paths the controllers read or
  write. \<open>status\<close> is one of \<open>active\<close>, \<open>revoked\<close>, \<open>expired\<close>, \<open>pending\<close>.
\<close>

record consent =
  consentId :: string
  customerId :: string
  partnerId :: string
  allowedDataFields :: "string list"
  purpose :: string
  retentionPeriod :: int
  createdAt :: int
  updatedAt :: int
  expiresAt :: int
  consentDuration :: int
  status :: string
  contractText :: string
  contractId :: string

definition consent_status_enum :: "string list" where
  "consent_status_enum = [''active'', ''revoked'', ''expired'', ''pending'']"

text \<open>
  \<^verbatim>\<open>partnerSchema\<close>, with the paths \<^verbatim>\<open>partnerDataRequest\<close> reads. Of
  \<open>contractData\<close> only the presence is read there; it is kept as the contract id.
\<close>

record partner =
  partnerId :: string
  status :: string
  approvedContract :: bool
  contractData :: "string option"
  publicKey :: "string option"
  callbackUrl :: "string option"

text \<open>\<^verbatim>\<open>req.user\<close>: the role and, for a customer, the customer id.\<close>

record user =
  role :: string
  customerId :: "string option"

text \<open>
  The configuration and the calendar: \<open>minDuration\<close> is
  \<^verbatim>\<open>parseInt(process.env.MIN_CONSENT_DURATION_MS)\<close>, \<open>minHours\<close> is the text that the
  template literal gives for \<^verbatim>\<open>minDuration / (60 * 60 * 1000)\<close>, and \<open>addDays d n\<close> is
  the date \<^verbatim>\<open>d\<close> after \<^verbatim>\<open>d.setDate(d.getDate() + n)\<close>.
\<close>

record env =
  minDuration :: int
  minHours :: string
  addDays :: "int \<Rightarrow> int \<Rightarrow> int"

text \<open>
  The validation that \<^verbatim>\<open>consent.save()\<close> runs on the whole document before it
  writes: the \<open>required\<close> validators of the text paths (an empty text fails), the
  validator of \<open>consentDuration\<close>
  (\<^verbatim>\<open>value >= parseInt(process.env.MIN_CONSENT_DURATION_MS)\<close>) and the enum of
  \<open>status\<close>. The other required paths (an array, which passes empty or not, two
  numbers and a date) hold a value of their type in every record and pass. The result is
  the list of the failing paths, each with the message of its validator, in schema order.
\<close>

definition requiredText :: "string \<Rightarrow> string \<Rightarrow> string \<Rightarrow> (string \<times> string) list" where
  "requiredText path message v = (if v = [] then [(path, message)] else [])"

definition validateDocument :: "env \<Rightarrow> consent \<Rightarrow> (string \<times> string) list" where
  "validateDocument E c =
     requiredText ''customerId'' ''Customer ID is required'' (consent.customerId c) @
     requiredText ''partnerId'' ''Partner ID is required'' (consent.partnerId c) @
     requiredText ''purpose'' ''Purpose is required'' (consent.purpose c) @
     (if consent.consentDuration c \<ge> minDuration E then []
      else [(''consentDuration'',
             ''Consent duration must be at least '' @ minHours E @ '' hour(s)'')]) @
     (if consent.status c \<in> set consent_status_enum then []
      else [(''status'',
             ''`'' @ consent.status c @ ''` is not a valid enum value for path `status`.'')]) @
     requiredText ''contractText'' ''Contract text is required'' (contractText c) @
     requiredText ''contractId'' ''Contract ID is required'' (contractId c)"

text \<open>
  A failed validation is thrown, reaches \<^verbatim>\<open>errorHandler\<close> through
  \<^verbatim>\<open>next(error)\<close> and is answered with status 500 (the error has no
  \<^verbatim>\<open>statusCode\<close>) and the error's message: the model's name, then every failing
  path with its message.
\<close>

definition documentInvalid :: "(string \<times> string) list \<Rightarrow> http_error" where
  "documentInvalid errors =
     HttpError 500
       (''Consent validation failed: '' @
        join '', '' (map (\<lambda>(path, message). path @ '': '' @ message) errors))"

text \<open>
  \<^verbatim>\<open>await consent.save()\<close> for the document at position \<open>i\<close>: validation, then
  the pre-save hook (\<^verbatim>\<open>this.updatedAt = Date.now()\<close>) and the write. When the
  validation fails nothing is written.
\<close>

definition saveConsent ::
  "env \<Rightarrow> int \<Rightarrow> nat \<Rightarrow> consent \<Rightarrow> consent list \<Rightarrow> http_error + consent list" where
  "saveConsent E now i c consents =
     (if validateDocument E c = [] then Inr (consents[i := c\<lparr>consent.updatedAt := now\<rparr>])
      else Inl (documentInvalid (validateDocument E c)))"

section \<open>Authorization of a partner data request\<close>

text \<open>
  \<^verbatim>\<open>partnerDataRequest\<close> (controllers/partnerController.js), from the start of the
  handler to the signature check. Each early \<^verbatim>\<open>return res.status(..)\<close> is one
  \<open>http_error\<close>.
\<close>

definition partnerNotApproved :: http_error where
  "partnerNotApproved =
     HttpError 403 ''Partner is not active or does not have an approved contract''"

definition noActiveConsent :: http_error where
  "noActiveConsent = HttpError 404 ''No active consent found''"

definition consentExpired :: http_error where
  "consentExpired = HttpError 403 ''Consent expired''"

definition fieldsNotAllowed :: "string list \<Rightarrow> http_error" where
  "fieldsNotAllowed invalidFields =
     HttpError 403 (''Fields not allowed: '' @ join '', '' invalidFields)"

definition invalidSignature :: http_error where
  "invalidSignature = HttpError 400 ''Invalid signature''"

text \<open>
  \<^verbatim>\<open>if (req.partner.status !== 'active' || !req.partner.approvedContract ||
  !req.partner.contractData)\<close>
\<close>

definition checkPartner :: "partner \<Rightarrow> http_error option" where
  "checkPartner p =
     (if partner.status p \<noteq> ''active'' \<or> \<not> approvedContract p \<or> contractData p = None
      then Some partnerNotApproved else None)"

text \<open>
  \<^verbatim>\<open>Consent.findOne({ consentId, partnerId, status: 'active' })\<close>
\<close>

definition findActiveConsent :: "string \<Rightarrow> string \<Rightarrow> consent list \<Rightarrow> nat option" where
  "findActiveConsent cid pid consents =
     findOne (\<lambda>c. consent.consentId c = cid \<and> consent.partnerId c = pid \<and>
                   consent.status c = ''active'') consents"

text \<open>
  \<^verbatim>\<open>requestedFields.filter(field => !consent.allowedDataFields.includes(field))\<close>
\<close>

definition invalidFields :: "string list \<Rightarrow> consent \<Rightarrow> string list" where
  "invalidFields requestedFields c =
     filter (\<lambda>field. field \<notin> set (consent.allowedDataFields c)) requestedFields"

text \<open>
  The field check: \<^verbatim>\<open>if (invalidFields.length > 0) return res.status(403)...\<close>
\<close>

definition checkFields :: "string list \<Rightarrow> consent \<Rightarrow> http_error option" where
  "checkFields requestedFields c =
     (if length (invalidFields requestedFields c) > 0
      then Some (fieldsNotAllowed (invalidFields requestedFields c)) else None)"

text \<open>
  \<^verbatim>\<open>errorHandler\<close> (middleware/errorMiddleware.js) for an error without
  \<^verbatim>\<open>statusCode\<close>: status 500 and \<^verbatim>\<open>err.message || 'An unexpected error occurred'\<close>.
\<close>

definition errorHandler :: "string \<Rightarrow> http_error" where
  "errorHandler message =
     HttpError 500 (if message = [] then ''An unexpected error occurred'' else message)"

text \<open>
  The optional signature check. \<open>verifySignature requestId consentId requestedFields
  signature publicKey\<close> stands for \<^verbatim>\<open>signatureService.verifySignature(JSON.stringify({
  requestId, consentId, requestedFields }), signature, req.partner.publicKey)\<close>, an RSA
  verification of the platform: it returns a boolean, or throws (for a key that is not a
  key) with the message on the left; what it throws goes to \<^verbatim>\<open>errorHandler\<close>.
\<close>

type_synonym request_verifier =
  "string \<Rightarrow> string \<Rightarrow> string list \<Rightarrow> string \<Rightarrow> string \<Rightarrow> string + bool"

definition checkSignature ::
  "request_verifier \<Rightarrow> partner \<Rightarrow> string \<Rightarrow> string \<Rightarrow> string list \<Rightarrow> string option \<Rightarrow>
   http_error option" where
  "checkSignature verifySignature p requestId cid requestedFields signature =
     (if truthy (publicKey p) \<and> truthy signature
      then (case verifySignature requestId cid requestedFields (the signature)
                   (the (publicKey p)) of
              Inl message \<Rightarrow> Some (errorHandler message)
            | Inr isValid \<Rightarrow> if \<not> isValid then Some invalidSignature else None)
      else None)"

text \<open>
  The authorization as a whole. On expiry the consent is marked and saved
  (\<^verbatim>\<open>consent.status = 'expired'; await consent.save()\<close>) before the error is
  returned; when the save throws, its error is the answer. The result is the error or the
  consent that authorizes the request, with the consent collection after the call.
\<close>

definition authorizeDisclosure ::
  "env \<Rightarrow> request_verifier \<Rightarrow> int \<Rightarrow> partner \<Rightarrow> string \<Rightarrow> string list \<Rightarrow> string \<Rightarrow>
   string option \<Rightarrow> consent list \<Rightarrow> (http_error + consent) \<times> consent list" where
  "authorizeDisclosure E verifySignature now p cid requestedFields requestId signature consents =
     (case checkPartner p of
        Some e \<Rightarrow> (Inl e, consents)
      | None \<Rightarrow>
         (case findActiveConsent cid (partner.partnerId p) consents of
            None \<Rightarrow> (Inl noActiveConsent, consents)
          | Some i \<Rightarrow>
             (let c = consents ! i in
              if now > consent.expiresAt c
              then (case saveConsent E now i (c\<lparr>consent.status := ''expired''\<rparr>) consents of
                      Inl e \<Rightarrow> (Inl e, consents)
                    | Inr consents' \<Rightarrow> (Inl consentExpired, consents'))
              else
               (case checkFields requestedFields c of
                  Some e \<Rightarrow> (Inl e, consents)
                | None \<Rightarrow>
                   (case checkSignature verifySignature p requestId cid requestedFields
                           signature of
                      Some e \<Rightarrow> (Inl e, consents)
                    | None \<Rightarrow> (Inr c, consents))))))"

text \<open>Concrete data for the examples of Part II.\<close>

definition consent0 :: consent where
  "consent0 = \<lparr> consent.consentId = ''c-1'', consent.customerId = ''cust-1'',
      consent.partnerId = ''p-1'', consent.allowedDataFields = [''phone'', ''email''],
      consent.purpose = ''kyc'', consent.retentionPeriod = 30, consent.createdAt = 0,
      consent.updatedAt = 0, consent.expiresAt = 3600000, consent.consentDuration = 3600000,
      consent.status = ''active'', contractText = ''terms'', contractId = ''contract-1'' \<rparr>"

definition partner0 :: partner where
  "partner0 = \<lparr> partner.partnerId = ''p-1'', partner.status = ''active'',
      approvedContract = True, contractData = Some ''contract-1'', publicKey = None,
      callbackUrl = None \<rparr>"

definition consent_revoked :: consent where
  "consent_revoked = consent0\<lparr>consent.status := ''revoked''\<rparr>"

definition noVerifier :: request_verifier where
  "noVerifier requestId cid requestedFields signature key = Inr False"

text \<open>
  A stored consent whose \<open>consentDuration\<close> lies below the configured minimum (the
  minimum was raised after the consent was created).
\<close>

definition consent_short :: consent where
  "consent_short = consent0\<lparr>consent.consentDuration := 1000\<rparr>"

section \<open>Updating and revoking a consent\<close>

text \<open>
  \<^verbatim>\<open>updateConsent\<close> and \<^verbatim>\<open>revokeConsent\<close> (controllers/consentController.js). The
  permission test of both handlers:
  \<^verbatim>\<open>req.user.role !== 'admin' && !(req.user.role === 'customer' &&
  req.user.customerId === consent.customerId)\<close> denies.
\<close>

definition permitted :: "user \<Rightarrow> consent \<Rightarrow> bool" where
  "permitted u c =
     (\<not> (role u \<noteq> ''admin'' \<and>
         \<not> (role u = ''customer'' \<and> user.customerId u = Some (consent.customerId c))))"

text \<open>
  \<^verbatim>\<open>req.body\<close> of \<^verbatim>\<open>PUT /consents/:consentId\<close>; an absent property is \<open>None\<close>.
\<close>

record updateBody =
  allowedDataFields :: "string list option"
  purpose :: "string option"
  retentionPeriod :: "int option"
  consentDuration :: "int option"
  status :: "string option"

text \<open>
  \<^verbatim>\<open>updateData\<close>, the object handed to \<^verbatim>\<open>findOneAndUpdate\<close>: only the properties
  that were assigned are set.
\<close>

record updateData =
  allowedDataFields :: "string list option"
  purpose :: "string option"
  status :: "string option"
  consentDuration :: "int option"
  expiresAt :: "int option"
  retentionPeriod :: "int option"
  updatedAt :: int

text \<open>JavaScript truthiness of an optional number: \<^verbatim>\<open>undefined\<close> and 0 are falsy.\<close>

fun truthyNum :: "int option \<Rightarrow> bool" where
  "truthyNum None = False"
| "truthyNum (Some n) = (n \<noteq> 0)"

definition durationTooShort :: "env \<Rightarrow> http_error" where
  "durationTooShort E =
     HttpError 400 (''Consent duration must be at least '' @ minHours E @ '' hour(s)'')"

definition noConsentFound :: http_error where
  "noConsentFound = HttpError 404 ''No consent found with that ID''"

definition noUpdatePermission :: http_error where
  "noUpdatePermission = HttpError 403 ''You do not have permission to update this consent''"

definition noRevokePermission :: http_error where
  "noRevokePermission = HttpError 403 ''You do not have permission to revoke this consent''"

text \<open>
  A Mongoose validation error reaches \<^verbatim>\<open>errorHandler\<close> through \<^verbatim>\<open>next(error)\<close>
  and is answered with status 500; of Mongoose's message only the path is kept.
\<close>

definition validationFailed :: "string \<Rightarrow> http_error" where
  "validationFailed path = HttpError 500 (''Validation failed: '' @ path)"

text \<open>
  The first part of \<^verbatim>\<open>updateConsent\<close>: building \<open>updateData\<close> from the body.
  \<open>found\<close> is the result of the \<^verbatim>\<open>Consent.findOne({ consentId })\<close> made when a
  retention period is given. Arrays are truthy, so any \<open>allowedDataFields\<close> that is
  present is copied.
\<close>

definition buildUpdateData ::
  "env \<Rightarrow> int \<Rightarrow> updateBody \<Rightarrow> consent option \<Rightarrow> http_error + updateData" where
  "buildUpdateData E now body found =
     (if truthyNum (updateBody.consentDuration body) \<and>
         the (updateBody.consentDuration body) < minDuration E
      then Inl (durationTooShort E)
      else
        (let afterDuration =
               (if truthyNum (updateBody.consentDuration body)
                then Some (now + the (updateBody.consentDuration body)) else None);
             afterRetention =
               (if truthyNum (updateBody.retentionPeriod body)
                then (case found of
                        Some c \<Rightarrow> Some (addDays E (consent.createdAt c)
                                          (the (updateBody.retentionPeriod body)))
                      | None \<Rightarrow> afterDuration)
                else afterDuration)
         in Inr \<lparr> updateData.allowedDataFields = updateBody.allowedDataFields body,
                  updateData.purpose =
                    (if truthy (updateBody.purpose body) then updateBody.purpose body else None),
                  updateData.status =
                    (if truthy (updateBody.status body) then updateBody.status body else None),
                  updateData.consentDuration =
                    (if truthyNum (updateBody.consentDuration body)
                     then updateBody.consentDuration body else None),
                  updateData.expiresAt = afterRetention,
                  updateData.retentionPeriod =
                    (if truthyNum (updateBody.retentionPeriod body)
                     then updateBody.retentionPeriod body else None),
                  updateData.updatedAt = now \<rparr>))"

text \<open>
  \<^verbatim>\<open>runValidators: true\<close>: the schema validators of the paths that are set. The
  \<open>status\<close> must belong to the enum and the \<open>consentDuration\<close> must reach the
  minimum; the other paths that \<open>updateData\<close> can set carry no validator that their
  values can fail. The result is the first failing path.
\<close>

definition runValidators :: "env \<Rightarrow> updateData \<Rightarrow> string option" where
  "runValidators E u =
     (case updateData.status u of
        Some s \<Rightarrow> if s \<in> set consent_status_enum then
                   (case updateData.consentDuration u of
                      Some d \<Rightarrow> if d \<ge> minDuration E then None else Some ''consentDuration''
                    | None \<Rightarrow> None)
                 else Some ''status''
      | None \<Rightarrow>
         (case updateData.consentDuration u of
            Some d \<Rightarrow> if d \<ge> minDuration E then None else Some ''consentDuration''
          | None \<Rightarrow> None))"

text \<open>The update itself: every property that is set replaces the stored one.\<close>

definition applyUpdate :: "updateData \<Rightarrow> consent \<Rightarrow> consent" where
  "applyUpdate u c =
     c\<lparr> consent.allowedDataFields :=
          (case updateData.allowedDataFields u of Some v \<Rightarrow> v
           | None \<Rightarrow> consent.allowedDataFields c),
        consent.purpose :=
          (case updateData.purpose u of Some v \<Rightarrow> v | None \<Rightarrow> consent.purpose c),
        consent.status :=
          (case updateData.status u of Some v \<Rightarrow> v | None \<Rightarrow> consent.status c),
        consent.consentDuration :=
          (case updateData.consentDuration u of Some v \<Rightarrow> v
           | None \<Rightarrow> consent.consentDuration c),
        consent.expiresAt :=
          (case updateData.expiresAt u of Some v \<Rightarrow> v | None \<Rightarrow> consent.expiresAt c),
        consent.retentionPeriod :=
          (case updateData.retentionPeriod u of Some v \<Rightarrow> v
           | None \<Rightarrow> consent.retentionPeriod c),
        consent.updatedAt := updateData.updatedAt u \<rparr>"

text \<open>
  \<^verbatim>\<open>updateConsent\<close>. The order is the handler's: build \<open>updateData\<close> (400 on a
  short duration), \<^verbatim>\<open>Consent.findOneAndUpdate\<close> (validation, then the write), 404 when
  no document matched, and only then the permission test on the updated document. The
  result is the answer and the consent collection after the call. The audit event and
  the partner notification that follow a success do not touch the collection.
\<close>

definition updateConsent ::
  "env \<Rightarrow> int \<Rightarrow> user \<Rightarrow> string \<Rightarrow> updateBody \<Rightarrow> consent list \<Rightarrow>
   (http_error + consent) \<times> consent list" where
  "updateConsent E now u cid body consents =
     (let found = findOne (\<lambda>c. consent.consentId c = cid) consents in
      case buildUpdateData E now body (map_option (nth consents) found) of
        Inl e \<Rightarrow> (Inl e, consents)
      | Inr upd \<Rightarrow>
         (case runValidators E upd of
            Some path \<Rightarrow> (Inl (validationFailed path), consents)
          | None \<Rightarrow>
             (case found of
                None \<Rightarrow> (Inl noConsentFound, consents)
              | Some i \<Rightarrow>
                 (let updatedConsent = applyUpdate upd (consents ! i);
                      consents' = consents[i := updatedConsent]
                  in if \<not> permitted u updatedConsent
                     then (Inl noUpdatePermission, consents')
                     else (Inr updatedConsent, consents')))))"

text \<open>
  \<^verbatim>\<open>revokeConsent\<close>: 404 when no document matches, 403 when the caller is not
  permitted, otherwise \<^verbatim>\<open>consent.status = 'revoked'; consent.updatedAt = Date.now();
  await consent.save()\<close>; when the save throws, its error is the answer and nothing is
  written. The stored status is not read.
\<close>

definition revokeConsent ::
  "env \<Rightarrow> int \<Rightarrow> user \<Rightarrow> string \<Rightarrow> consent list \<Rightarrow> (http_error + consent) \<times> consent list"
  where
  "revokeConsent E now u cid consents =
     (case findOne (\<lambda>c. consent.consentId c = cid) consents of
        None \<Rightarrow> (Inl noConsentFound, consents)
      | Some i \<Rightarrow>
         (let c = consents ! i in
          if \<not> permitted u c then (Inl noRevokePermission, consents)
          else (case saveConsent E now i
                       (c\<lparr>consent.status := ''revoked'', consent.updatedAt := now\<rparr>)
                       consents of
                  Inl e \<Rightarrow> (Inl e, consents)
                | Inr consents' \<Rightarrow> (Inr (consents' ! i), consents'))))"

text \<open>More concrete data: callers, request bodies, an expired consent.\<close>

definition admin :: user where
  "admin = \<lparr> role = ''admin'', user.customerId = None \<rparr>"

definition otherCustomer :: user where
  "otherCustomer = \<lparr> role = ''customer'', user.customerId = Some ''cust-2'' \<rparr>"

definition consent_expired :: consent where
  "consent_expired = consent0\<lparr>consent.status := ''expired''\<rparr>"

definition emptyBody :: updateBody where
  "emptyBody = \<lparr> updateBody.allowedDataFields = None, updateBody.purpose = None,
      updateBody.retentionPeriod = None, updateBody.consentDuration = None,
      updateBody.status = None \<rparr>"

definition reactivate :: updateBody where
  "reactivate = emptyBody\<lparr>updateBody.status := Some ''active''\<rparr>"

definition widen :: updateBody where
  "widen = emptyBody\<lparr>updateBody.allowedDataFields := Some [''phone'', ''email'', ''pan'']\<rparr>"

definition env0 :: env where
  "env0 = \<lparr> minDuration = 3600000, minHours = ''1'',
      addDays = (\<lambda>d n. d + n * 86400000) \<rparr>"

section \<open>The audit log\<close>

text \<open>
  \<^verbatim>\<open>auditLogSchema\<close> (models/auditLogModel.js). Paths without a default may be
  absent. \<open>actionDetails\<close> and \<open>metadata\<close> (of type Mixed) are kept as their JSON
  text.
\<close>

record auditLog =
  logId :: string
  eventType :: string
  actorType :: string
  actorId :: string
  consentId :: "string option"
  customerId :: "string option"
  partnerId :: "string option"
  actionDetails :: string
  metadata :: string
  eventHash :: "string option"
  previousHash :: "string option"
  digitalSignature :: "string option"
  createdAt :: int

text \<open>The argument of \<^verbatim>\<open>AuditService.logEvent\<close>.\<close>

record auditEvent =
  eventType :: string
  actorType :: string
  actorId :: string
  consentId :: "string option"
  customerId :: "string option"
  partnerId :: "string option"
  actionDetails :: string
  metadata :: string

text \<open>
  What \<^verbatim>\<open>logEvent\<close> returns: \<^verbatim>\<open>{ logId, eventType, actorType, actorId, timestamp }\<close>.
  The timestamp is kept as the instant whose ISO text the code returns.
\<close>

record mockAuditLog =
  logId :: string
  eventType :: string
  actorType :: string
  actorId :: string
  timestamp :: int

text \<open>
  The state that \<^verbatim>\<open>logEvent\<close> can reach: the \<^verbatim>\<open>AuditLog\<close> collection and the
  console, as the list of the events printed with their timestamps.
\<close>

record auditState =
  auditLogs :: "auditLog list"
  console :: "(int \<times> auditEvent) list"

text \<open>
  \<^verbatim>\<open>AuditService.logEvent\<close> (utils/auditService.js): it prints the event
  (\<^verbatim>\<open>console.log('AUDIT LOG EVENT:', {...})\<close>) and returns a mock object with a fresh
  \<^verbatim>\<open>uuidv4()\<close>, here the argument \<open>uuid\<close>. It makes no call on the \<^verbatim>\<open>AuditLog\<close>
  model, on \<^verbatim>\<open>calculateHash\<close> or on the signature service.
\<close>

definition logEvent :: "auditEvent \<Rightarrow> string \<Rightarrow> int \<Rightarrow> auditState \<Rightarrow> mockAuditLog \<times> auditState" where
  "logEvent ev uuid now st =
     (\<lparr> mockAuditLog.logId = uuid,
         mockAuditLog.eventType = auditEvent.eventType ev,
         mockAuditLog.actorType = auditEvent.actorType ev,
         mockAuditLog.actorId = auditEvent.actorId ev,
         timestamp = now \<rparr>,
      st\<lparr>console := console st @ [(now, ev)]\<rparr>)"

text \<open>A thrown \<^verbatim>\<open>Error(message)\<close>.\<close>

datatype exn = Error string

text \<open>
  \<open>signature_verifier\<close> stands for \<^verbatim>\<open>signatureService.verifySignature(data,
  signature)\<close> under the service's own public key: an RSA verification of the platform,
  which returns a boolean or throws (\<open>None\<close>).
\<close>

type_synonym signature_verifier = "string option \<Rightarrow> string option \<Rightarrow> bool option"

text \<open>
  The loop of \<^verbatim>\<open>verifyLogIntegrity\<close>, \<^verbatim>\<open>for (let i = 1; i < logs.length; i++)\<close>:
  \<open>previousLog\<close> is \<^verbatim>\<open>logs[i - 1]\<close> and the list holds \<^verbatim>\<open>logs[i]\<close> and what
  follows. \<open>None\<close> is an exception thrown inside the loop.
\<close>

fun verifyChain ::
  "signature_verifier \<Rightarrow> auditLog \<Rightarrow> auditLog list \<Rightarrow> (bool \<times> string) option" where
  "verifyChain verifySignature previousLog [] = Some (True, ''Log chain integrity verified'')"
| "verifyChain verifySignature previousLog (currentLog # rest) =
     (if auditLog.previousHash currentLog \<noteq> auditLog.eventHash previousLog
      then Some (False, ''Chain broken between logs '' @ auditLog.logId previousLog @
                        '' and '' @ auditLog.logId currentLog)
      else
        (case verifySignature (auditLog.eventHash currentLog)
                (auditLog.digitalSignature currentLog) of
           None \<Rightarrow> None
         | Some isSignatureValid \<Rightarrow>
             if \<not> isSignatureValid
             then Some (False, ''Invalid signature for log '' @ auditLog.logId currentLog)
             else verifyChain verifySignature currentLog rest))"

text \<open>
  \<^verbatim>\<open>AuditLog.find({ logId: { $gte: startId, $lte: endId } }).sort({ createdAt: 1 })\<close>:
  the range is a comparison of the \<open>logId\<close> strings (byte order), the order is by
  creation time.
\<close>

definition findRange :: "auditLog list \<Rightarrow> string \<Rightarrow> string \<Rightarrow> auditLog list" where
  "findRange db startId endId =
     sort_key auditLog.createdAt
       (filter (\<lambda>l. startId \<le> auditLog.logId l \<and> auditLog.logId l \<le> endId) db)"

text \<open>
  \<^verbatim>\<open>AuditService.verifyLogIntegrity\<close>: the result \<^verbatim>\<open>{ valid, message }\<close>, or the
  error thrown from the \<^verbatim>\<open>catch\<close> block.
\<close>

definition verifyLogIntegrity ::
  "signature_verifier \<Rightarrow> auditLog list \<Rightarrow> string \<Rightarrow> string \<Rightarrow> exn + (bool \<times> string)" where
  "verifyLogIntegrity verifySignature db startId endId =
     (case findRange db startId endId of
        [] \<Rightarrow> Inr (True, ''No logs to verify'')
      | first # rest \<Rightarrow>
         (case verifyChain verifySignature first rest of
            None \<Rightarrow> Inl (Error ''Failed to verify log integrity'')
          | Some r \<Rightarrow> Inr r))"

text \<open>
  The chains whose links all hold: each entry's \<open>previousHash\<close> is the
  \<open>eventHash\<close> of the entry before it.
\<close>

fun linked :: "auditLog \<Rightarrow> auditLog list \<Rightarrow> bool" where
  "linked previousLog [] = True"
| "linked previousLog (currentLog # rest) =
     (auditLog.previousHash currentLog = auditLog.eventHash previousLog \<and>
      linked currentLog rest)"

text \<open>
  Concrete audit data: a verifier that accepts exactly the signature \<open>signed:\<close> followed
  by the hash, an event, and two chained entries of which the first carries a forged
  signature.
\<close>

definition toyVerify :: signature_verifier where
  "toyVerify h s =
     (case h of None \<Rightarrow> None
      | Some h' \<Rightarrow> (case s of None \<Rightarrow> None | Some s' \<Rightarrow> Some (s' = ''signed:'' @ h')))"

definition event0 :: auditEvent where
  "event0 = \<lparr> auditEvent.eventType = ''consent_created'', auditEvent.actorType = ''admin'',
      auditEvent.actorId = ''u-1'', auditEvent.consentId = Some ''c-1'',
      auditEvent.customerId = Some ''cust-1'', auditEvent.partnerId = Some ''p-1'',
      auditEvent.actionDetails = ''{}'', auditEvent.metadata = ''{}'' \<rparr>"

definition emptyAudit :: auditState where
  "emptyAudit = \<lparr> auditLogs = [], console = [] \<rparr>"

definition log_a :: auditLog where
  "log_a = \<lparr> auditLog.logId = ''a'', auditLog.eventType = ''consent_created'',
      auditLog.actorType = ''admin'', auditLog.actorId = ''u-1'', auditLog.consentId = None,
      auditLog.customerId = None, auditLog.partnerId = None, auditLog.actionDetails = ''{}'',
      auditLog.metadata = ''{}'', eventHash = Some ''h1'', previousHash = Some ''h0'',
      digitalSignature = Some ''forged'', auditLog.createdAt = 1 \<rparr>"

definition log_b :: auditLog where
  "log_b = \<lparr> auditLog.logId = ''b'', auditLog.eventType = ''consent_revoked'',
      auditLog.actorType = ''admin'', auditLog.actorId = ''u-1'', auditLog.consentId = None,
      auditLog.customerId = None, auditLog.partnerId = None, auditLog.actionDetails = ''{}'',
      auditLog.metadata = ''{}'', eventHash = Some ''h2'', previousHash = Some ''h1'',
      digitalSignature = Some ''signed:h2'', auditLog.createdAt = 2 \<rparr>"

section \<open>Buffers, text and the random source\<close>

text \<open>
  A \<^verbatim>\<open>Buffer\<close> is a list of bytes. A JavaScript string is a list of UTF-16 code
  units; \<open>ascii\<close> embeds a string literal of the source.
\<close>

type_synonym bytes = "8 word list"

type_synonym jsstring = "16 word list"

definition ascii :: "string \<Rightarrow> jsstring" where
  "ascii s = map (\<lambda>c. of_nat (of_char c)) s"

text \<open>
  \<^verbatim>\<open>String.prototype.toWellFormed\<close>: every code unit of a surrogate pair is kept, every
  lone surrogate is replaced by U+FFFD. This is what a string becomes when it is written
  as UTF-8 and read back.
\<close>

definition isHigh :: "16 word \<Rightarrow> bool" where
  "isHigh u = (0xD800 \<le> u \<and> u \<le> 0xDBFF)"

definition isLow :: "16 word \<Rightarrow> bool" where
  "isLow u = (0xDC00 \<le> u \<and> u \<le> 0xDFFF)"

fun toWellFormed :: "jsstring \<Rightarrow> jsstring" where
  "toWellFormed [] = []"
| "toWellFormed [u] = (if isHigh u \<or> isLow u then [0xFFFD] else [u])"
| "toWellFormed (u # v # rest) =
     (if isHigh u \<and> isLow v then u # v # toWellFormed rest
      else if isHigh u \<or> isLow u then 0xFFFD # toWellFormed (v # rest)
      else u # toWellFormed (v # rest))"

text \<open>\<^verbatim>\<open>String.prototype.isWellFormed\<close>: no lone surrogate.\<close>

definition isWellFormed :: "jsstring \<Rightarrow> bool" where
  "isWellFormed s = (toWellFormed s = s)"

text \<open>\<^verbatim>\<open>buf.toString('hex')\<close>: two lower-case digits per byte.\<close>

definition hexDigit :: "nat \<Rightarrow> char" where
  "hexDigit n = ''0123456789abcdef'' ! n"

fun toHex :: "bytes \<Rightarrow> string" where
  "toHex [] = []"
| "toHex (b # bs) = hexDigit (unat b div 16) # hexDigit (unat b mod 16) # toHex bs"

text \<open>
  \<^verbatim>\<open>Buffer.from(s, 'hex')\<close>: digits of either case, two per byte; decoding stops at
  the first pair that is not two hex digits, and a trailing single character is dropped.
\<close>

definition hexValue :: "char \<Rightarrow> nat option" where
  "hexValue c =
     (let n = (of_char c :: nat)
      in if 48 \<le> n \<and> n \<le> 57 then Some (n - 48)
         else if 97 \<le> n \<and> n \<le> 102 then Some (n - 87)
         else if 65 \<le> n \<and> n \<le> 70 then Some (n - 55)
         else None)"

fun fromHex :: "string \<Rightarrow> bytes" where
  "fromHex (c1 # c2 # cs) =
     (case hexValue c1 of
        None \<Rightarrow> []
      | Some h \<Rightarrow>
         (case hexValue c2 of
            None \<Rightarrow> []
          | Some l \<Rightarrow> of_nat (16 * h + l) # fromHex cs))"
| "fromHex cs = []"

text \<open>
  The random source is the stream of the bytes it will deliver; \<^verbatim>\<open>crypto.randomBytes(n)\<close>
  takes the next \<open>n\<close> of them.
\<close>

type_synonym entropy = "8 word stream"

definition randomBytes :: "nat \<Rightarrow> entropy \<Rightarrow> bytes \<times> entropy" where
  "randomBytes n e = (stake n e, sdrop n e)"

text \<open>\<^verbatim>\<open>String.prototype.includes\<close>, on strings of either kind.\<close>

fun startsWith :: "'a list \<Rightarrow> 'a list \<Rightarrow> bool" where
  "startsWith s [] = True"
| "startsWith [] (c # cs) = False"
| "startsWith (x # xs) (c # cs) = (x = c \<and> startsWith xs cs)"

fun includes_text :: "'a list \<Rightarrow> 'a list \<Rightarrow> bool" where
  "includes_text [] sub = (sub = [])"
| "includes_text (x # xs) sub = (startsWith (x # xs) sub \<or> includes_text xs sub)"

text \<open>
  An object with text keys is the list of its own properties. The assignment
  \<^verbatim>\<open>obj[name] = value\<close> on an object created by \<^verbatim>\<open>{}\<close> sets the property, except
  for the name \<^verbatim>\<open>__proto__\<close>: that assignment goes to the accessor of
  \<^verbatim>\<open>Object.prototype\<close> and adds no property. The order in which JavaScript enumerates
  the properties (index-like names first) is not kept by the list.
\<close>

definition assign :: "jsstring \<Rightarrow> 'v \<Rightarrow> (jsstring \<times> 'v) list \<Rightarrow> (jsstring \<times> 'v) list" where
  "assign name v obj =
     (if name = ascii ''__proto__'' then obj else AList.update name v obj)"

section \<open>The encryption service and the partner's decryption service\<close>

text \<open>
  The value that \<^verbatim>\<open>encryptField\<close> returns and the customer model stores:
  \<^verbatim>\<open>{ encryptedValue, iv, authTag, hash }\<close>, all in hex.
\<close>

record encryptedField =
  encryptedValue :: string
  iv :: string
  authTag :: string
  hash :: string

text \<open>
  The inner payload of the secure envelope:
  \<^verbatim>\<open>{ encryptedFields, tempKey, algorithm }\<close>.
\<close>

record payload =
  encryptedFields :: "(jsstring \<times> encryptedField) list"
  tempKey :: string
  algorithm :: string

text \<open>
  The package that \<^verbatim>\<open>encryptWithPublicKey\<close> returns, with the \<open>encryptionType\<close>
  that \<^verbatim>\<open>encryptCustomerFieldsSecure\<close> adds.
\<close>

record envelope =
  encryptedData :: string
  iv :: string
  authTag :: string
  encryptedKey :: string
  algorithm :: string
  encryptionType :: "string option"

text \<open>
  What the code takes from Node: the \<^verbatim>\<open>crypto\<close> module, the encodings of
  \<^verbatim>\<open>Buffer\<close> and JSON. A call that can throw returns the error's message on the left.
  \<^item> \<open>aesGcmEncrypt key iv plaintext\<close> is the ciphertext and the authentication tag of
    \<^verbatim>\<open>createCipheriv('aes-256-gcm', key, iv)\<close>;
  \<^item> \<open>aesGcmDecrypt key iv authTag ciphertext\<close> is \<^verbatim>\<open>createDecipheriv\<close> with
    \<^verbatim>\<open>setAuthTag\<close>, \<^verbatim>\<open>update\<close> and \<^verbatim>\<open>final\<close> on these bytes;
  \<^item> \<open>decipherSetup key iv authTag\<close> is the message of the error that
    \<^verbatim>\<open>createDecipheriv('aes-256-gcm', key, iv)\<close> or \<^verbatim>\<open>setAuthTag(authTag)\<close> throws,
    if one of them throws;
  \<^item> \<open>invalidHexLength n\<close> is the message of the error that
    \<^verbatim>\<open>update(text, 'hex', ..)\<close> throws for a text of the odd length \<open>n\<close>;
  \<^item> \<open>publicEncrypt key seed message\<close> and \<open>privateDecrypt key ciphertext\<close> are
    RSA-OAEP with SHA-256; \<open>seed\<close> is the randomness of the padding;
  \<^item> \<open>sha256\<close> is \<^verbatim>\<open>createHash('sha256')\<close>;
  \<^item> \<open>toBase64\<close> and \<open>fromBase64\<close> are \<^verbatim>\<open>buf.toString('base64')\<close> and
    \<^verbatim>\<open>Buffer.from(s, 'base64')\<close>;
  \<^item> \<open>utf8\<close> is \<^verbatim>\<open>Buffer.from(s, 'utf8')\<close>, the bytes that a cipher or a hash reads
    from a string, and \<open>fromUtf8\<close> is \<^verbatim>\<open>buf.toString('utf8')\<close>, the string that a
    decipher with output encoding \<^verbatim>\<open>'utf8'\<close> gives for these bytes;
  \<^item> \<open>stringify\<close> and \<open>parse\<close> are \<^verbatim>\<open>JSON.stringify\<close> and \<^verbatim>\<open>JSON.parse\<close> on the
    inner payload; \<open>parse\<close> fails on a text that is not a payload;
  \<^item> \<open>stringifyData\<close> is \<^verbatim>\<open>JSON.stringify\<close> on an object of texts, and
    \<open>parseField\<close> is \<^verbatim>\<open>JSON.parse\<close> on the text of a stored field: \<open>None\<close> when
    it throws or gives no object with the texts \<^verbatim>\<open>encryptedValue\<close>, \<^verbatim>\<open>iv\<close> and
    \<^verbatim>\<open>authTag\<close>.
\<close>

record node =
  aesGcmEncrypt :: "bytes \<Rightarrow> bytes \<Rightarrow> bytes \<Rightarrow> bytes \<times> bytes"
  aesGcmDecrypt :: "bytes \<Rightarrow> bytes \<Rightarrow> bytes \<Rightarrow> bytes \<Rightarrow> string + bytes"
  decipherSetup :: "bytes \<Rightarrow> bytes \<Rightarrow> bytes \<Rightarrow> string option"
  invalidHexLength :: "nat \<Rightarrow> string"
  publicEncrypt :: "string \<Rightarrow> bytes \<Rightarrow> bytes \<Rightarrow> string + bytes"
  privateDecrypt :: "string \<Rightarrow> bytes \<Rightarrow> string + bytes"
  sha256 :: "bytes \<Rightarrow> bytes"
  toBase64 :: "bytes \<Rightarrow> string"
  fromBase64 :: "string \<Rightarrow> bytes"
  utf8 :: "jsstring \<Rightarrow> bytes"
  fromUtf8 :: "bytes \<Rightarrow> jsstring"
  stringify :: "payload \<Rightarrow> jsstring"
  parse :: "jsstring \<Rightarrow> string + payload"
  stringifyData :: "(jsstring \<times> jsstring) list \<Rightarrow> jsstring"
  parseField :: "jsstring \<Rightarrow> encryptedField option"

text \<open>
  The constructor of \<^verbatim>\<open>EncryptionService\<close>: the key is the UTF-8 text of
  \<^verbatim>\<open>process.env.ENCRYPTION_KEY\<close> and must have 32 bytes. The service is its key.
\<close>

definition newEncryptionService :: "node \<Rightarrow> jsstring \<Rightarrow> exn + bytes" where
  "newEncryptionService N encryptionKey =
     (let key = utf8 N encryptionKey
      in if length key \<noteq> 32 then Inl (Error ''Encryption key must be 32 bytes (256 bits)'')
         else Inr key)"

text \<open>
  The cipher steps that \<^verbatim>\<open>encryptField\<close> and the loop of
  \<^verbatim>\<open>encryptCustomerFieldsSecure\<close> both write out: \<^verbatim>\<open>createCipheriv\<close>,
  \<^verbatim>\<open>update(plaintext, 'utf8', 'hex')\<close>, \<^verbatim>\<open>final('hex')\<close>, \<^verbatim>\<open>getAuthTag()\<close> and the
  SHA-256 of the plaintext, collected in the object
  \<^verbatim>\<open>{ encryptedValue, iv, authTag, hash }\<close>.
\<close>

definition encipher :: "node \<Rightarrow> bytes \<Rightarrow> bytes \<Rightarrow> jsstring \<Rightarrow> encryptedField" where
  "encipher N key ivBytes plaintext =
     (let (encrypted, tag) = aesGcmEncrypt N key ivBytes (utf8 N plaintext)
      in \<lparr> encryptedValue = toHex encrypted, encryptedField.iv = toHex ivBytes,
            encryptedField.authTag = toHex tag,
            hash = toHex (sha256 N (utf8 N plaintext)) \<rparr>)"

text \<open>
  The decipher steps that \<^verbatim>\<open>decryptField\<close> and the loop of \<^verbatim>\<open>decryptSecureData\<close>
  both write out: \<^verbatim>\<open>createDecipheriv(.., key, Buffer.from(iv, 'hex'))\<close>,
  \<^verbatim>\<open>setAuthTag(Buffer.from(authTag, 'hex'))\<close>,
  \<^verbatim>\<open>update(encryptedValue, 'hex', 'utf8')\<close> and \<^verbatim>\<open>final('utf8')\<close>. The result is
  the decrypted text, or the message of what was thrown: \<^verbatim>\<open>update\<close> throws on a hex
  text of odd length, after the decipher has been set up.
\<close>

definition decipher :: "node \<Rightarrow> bytes \<Rightarrow> encryptedField \<Rightarrow> string + jsstring" where
  "decipher N key ef =
     (if odd (length (encryptedValue ef))
      then (case decipherSetup N key (fromHex (encryptedField.iv ef))
                    (fromHex (encryptedField.authTag ef)) of
              Some message \<Rightarrow> Inl message
            | None \<Rightarrow> Inl (invalidHexLength N (length (encryptedValue ef))))
      else (case aesGcmDecrypt N key (fromHex (encryptedField.iv ef))
                    (fromHex (encryptedField.authTag ef)) (fromHex (encryptedValue ef)) of
              Inl message \<Rightarrow> Inl message
            | Inr decrypted \<Rightarrow> Inr (fromUtf8 N decrypted)))"

text \<open>\<^verbatim>\<open>encryptField(plaintext)\<close>, with the random source before and after.\<close>

definition encryptField ::
  "node \<Rightarrow> bytes \<Rightarrow> jsstring \<Rightarrow> entropy \<Rightarrow> encryptedField \<times> entropy" where
  "encryptField N key plaintext e =
     (let (ivBytes, e') = randomBytes 16 e
      in (encipher N key ivBytes plaintext, e'))"

text \<open>
  \<^verbatim>\<open>decryptField(encryptedData)\<close>, with \<open>ef\<close> for the argument: whatever is thrown
  inside the \<^verbatim>\<open>try\<close> is replaced by \<^verbatim>\<open>Error('Failed to decrypt data')\<close>.
\<close>

definition decryptField :: "node \<Rightarrow> bytes \<Rightarrow> encryptedField \<Rightarrow> exn + jsstring" where
  "decryptField N key ef =
     (case decipher N key ef of
        Inl message \<Rightarrow> Inl (Error ''Failed to decrypt data'')
      | Inr decrypted \<Rightarrow> Inr decrypted)"

text \<open>The PEM armour that \<^verbatim>\<open>encryptWithPublicKey\<close> adds to a bare key.\<close>

definition toPem :: "string \<Rightarrow> string" where
  "toPem publicKeyString =
     (if includes_text publicKeyString ''-----BEGIN PUBLIC KEY-----'' then publicKeyString
      else ''-----BEGIN PUBLIC KEY-----'' @ [CHR 0x0A] @ publicKeyString @ [CHR 0x0A] @
           ''-----END PUBLIC KEY-----'')"

text \<open>
  \<^verbatim>\<open>encryptWithPublicKey(data, publicKeyString)\<close>: a fresh AES key and IV, the data
  under AES-256-GCM, the AES key under the partner's RSA key.
\<close>

definition encryptWithPublicKey ::
  "node \<Rightarrow> jsstring \<Rightarrow> string \<Rightarrow> entropy \<Rightarrow> (exn + envelope) \<times> entropy" where
  "encryptWithPublicKey N data publicKeyString e =
     (let (aesKey, e1) = randomBytes 32 e;
          (ivBytes, e2) = randomBytes 16 e1;
          (encrypted, tag) = aesGcmEncrypt N aesKey ivBytes (utf8 N data);
          (seed, e3) = randomBytes 32 e2
      in case publicEncrypt N (toPem publicKeyString) seed aesKey of
           Inl message \<Rightarrow> (Inl (Error ''Failed to encrypt data with public key''), e3)
         | Inr wrapped \<Rightarrow>
             (Inr \<lparr> encryptedData = toBase64 N encrypted, envelope.iv = toBase64 N ivBytes,
                    envelope.authTag = toBase64 N tag, encryptedKey = toBase64 N wrapped,
                    envelope.algorithm = ''RSA-OAEP-SHA256+AES-256-GCM'',
                    encryptionType = None \<rparr>, e3))"

text \<open>
  The loop of \<^verbatim>\<open>encryptCustomerFieldsSecure\<close> over \<^verbatim>\<open>Object.entries(customerData)\<close>:
  a field whose value is falsy (the empty text) is skipped; the others are encrypted
  under the one temporary key and IV and assigned to \<^verbatim>\<open>encryptedFields[fieldName]\<close>.
\<close>

fun encryptEntries ::
  "node \<Rightarrow> bytes \<Rightarrow> bytes \<Rightarrow> (jsstring \<times> jsstring) list \<Rightarrow>
   (jsstring \<times> encryptedField) list \<Rightarrow> (jsstring \<times> encryptedField) list" where
  "encryptEntries N tempAesKey tempIv [] acc = acc"
| "encryptEntries N tempAesKey tempIv ((fieldName, fieldValue) # rest) acc =
     (if fieldValue \<noteq> []
      then encryptEntries N tempAesKey tempIv rest
             (assign fieldName (encipher N tempAesKey tempIv fieldValue) acc)
      else encryptEntries N tempAesKey tempIv rest acc)"

text \<open>
  \<^verbatim>\<open>encryptCustomerFieldsSecure(customerData, partnerPublicKey)\<close>, for customer data
  whose values are strings. Whatever is thrown is replaced by
  \<^verbatim>\<open>Error('Failed to encrypt customer data securely')\<close>.
\<close>

definition encryptCustomerFieldsSecure ::
  "node \<Rightarrow> (jsstring \<times> jsstring) list \<Rightarrow> string \<Rightarrow> entropy \<Rightarrow> (exn + envelope) \<times> entropy"
  where
  "encryptCustomerFieldsSecure N customerData partnerPublicKey e =
     (let (tempAesKey, e1) = randomBytes 32 e;
          (tempIv, e2) = randomBytes 16 e1;
          pl = \<lparr> encryptedFields = encryptEntries N tempAesKey tempIv customerData [],
                 tempKey = toBase64 N tempAesKey,
                 payload.algorithm = ''AES-256-GCM-TEMP-KEY'' \<rparr>
      in case encryptWithPublicKey N (stringify N pl) partnerPublicKey e2 of
           (Inl err, e3) \<Rightarrow> (Inl (Error ''Failed to encrypt customer data securely''), e3)
         | (Inr encryptedPayload, e3) \<Rightarrow>
             (Inr (encryptedPayload\<lparr>encryptionType := Some ''secure-temporary-key''\<rparr>), e3))"

text \<open>
  Two calls of \<^verbatim>\<open>encryptCustomerFieldsSecure\<close> with the same arguments, one after the
  other on the random source.
\<close>

definition encryptTwice ::
  "node \<Rightarrow> (jsstring \<times> jsstring) list \<Rightarrow> string \<Rightarrow> entropy \<Rightarrow>
   (exn + envelope) \<times> (exn + envelope)" where
  "encryptTwice N customerData partnerPublicKey e =
     (let (first, e1) = encryptCustomerFieldsSecure N customerData partnerPublicKey e;
          (second, e2) = encryptCustomerFieldsSecure N customerData partnerPublicKey e1
      in (first, second))"

text \<open>
  \<^verbatim>\<open>DecryptionService.decryptHybridData\<close> (partner-backend/decryptionService.js), on
  the payload of a secure envelope. \<open>privateKey\<close> is \<open>None\<close> when no key could be
  loaded. An error inside the \<^verbatim>\<open>try\<close> is rethrown as
  \<^verbatim>\<open>Error(`Failed to decrypt data: ${error.message}`)\<close>.
\<close>

definition decryptHybridData :: "node \<Rightarrow> string option \<Rightarrow> envelope \<Rightarrow> exn + payload" where
  "decryptHybridData N privateKey encryptedResponse =
     (case privateKey of
        None \<Rightarrow> Inl (Error ''Private key not available for decryption'')
      | Some key \<Rightarrow>
         (let failed = (\<lambda>message. Inl (Error (''Failed to decrypt data: '' @ message)))
          in if envelope.algorithm encryptedResponse = ''RSA-OAEP-SHA256+AES-256-GCM''
             then
               (case privateDecrypt N key (fromBase64 N (encryptedKey encryptedResponse)) of
                  Inl message \<Rightarrow> failed message
                | Inr aesKey \<Rightarrow>
                   (case aesGcmDecrypt N aesKey
                           (fromBase64 N (envelope.iv encryptedResponse))
                           (fromBase64 N (envelope.authTag encryptedResponse))
                           (fromBase64 N (encryptedData encryptedResponse)) of
                      Inl message \<Rightarrow> failed message
                    | Inr decrypted \<Rightarrow>
                       (case parse N (fromUtf8 N decrypted) of
                          Inl message \<Rightarrow> failed message
                        | Inr pl \<Rightarrow> Inr pl)))
             else if envelope.algorithm encryptedResponse = ''RSA-OAEP-SHA256''
             then
               (case privateDecrypt N key (fromBase64 N (encryptedData encryptedResponse)) of
                  Inl message \<Rightarrow> failed message
                | Inr decryptedBuffer \<Rightarrow>
                   (case parse N (fromUtf8 N decryptedBuffer) of
                      Inl message \<Rightarrow> failed message
                    | Inr pl \<Rightarrow> Inr pl))
             else failed (''Unsupported encryption algorithm: '' @
                          envelope.algorithm encryptedResponse)))"

text \<open>
  The loop of \<^verbatim>\<open>decryptSecureData\<close> over \<^verbatim>\<open>Object.entries(encryptedFields)\<close>: a
  field that fails to decrypt is given the text \<^verbatim>\<open>[DECRYPTION_FAILED: message]\<close>.
\<close>

definition decryptValue :: "node \<Rightarrow> bytes \<Rightarrow> encryptedField \<Rightarrow> jsstring" where
  "decryptValue N tempAesKey ef =
     (case decipher N tempAesKey ef of
        Inl message \<Rightarrow> ascii (''[DECRYPTION_FAILED: '' @ message @ '']'')
      | Inr decrypted \<Rightarrow> decrypted)"

fun decryptEntries ::
  "node \<Rightarrow> bytes \<Rightarrow> (jsstring \<times> encryptedField) list \<Rightarrow> (jsstring \<times> jsstring) list \<Rightarrow>
   (jsstring \<times> jsstring) list" where
  "decryptEntries N tempAesKey [] acc = acc"
| "decryptEntries N tempAesKey ((fieldName, ef) # rest) acc =
     decryptEntries N tempAesKey rest (assign fieldName (decryptValue N tempAesKey ef) acc)"

text \<open>
  \<^verbatim>\<open>DecryptionService.decryptSecureData\<close>: the decrypted customer data. An error
  inside the \<^verbatim>\<open>try\<close> is rethrown as
  \<^verbatim>\<open>Error(`Failed to decrypt secure data: ${error.message}`)\<close>.
\<close>

definition decryptSecureData ::
  "node \<Rightarrow> string option \<Rightarrow> envelope \<Rightarrow> exn + (jsstring \<times> jsstring) list" where
  "decryptSecureData N privateKey encryptedResponse =
     (case privateKey of
        None \<Rightarrow> Inl (Error ''Private key not available for decryption'')
      | Some key \<Rightarrow>
         (case decryptHybridData N privateKey encryptedResponse of
            Inl (Error message) \<Rightarrow> Inl (Error (''Failed to decrypt secure data: '' @ message))
          | Inr decryptedPayload \<Rightarrow>
             if payload.algorithm decryptedPayload \<noteq> ''AES-256-GCM-TEMP-KEY''
             then Inl (Error (''Failed to decrypt secure data: Unsupported secure algorithm: '' @
                              payload.algorithm decryptedPayload))
             else Inr (decryptEntries N (fromBase64 N (tempKey decryptedPayload))
                         (encryptedFields decryptedPayload) [])))"

text \<open>
  The temporary key that an envelope carries: the \<open>tempKey\<close> of the payload that the
  partner's \<open>decryptHybridData\<close> recovers from it.
\<close>

definition embeddedTempKey :: "node \<Rightarrow> string \<Rightarrow> envelope \<Rightarrow> string option" where
  "embeddedTempKey N privateKey env =
     (case decryptHybridData N (Some privateKey) env of
        Inl err \<Rightarrow> None
      | Inr pl \<Rightarrow> Some (tempKey pl))"

section \<open>The response to a partner data request\<close>

text \<open>
  The rest of \<^verbatim>\<open>partnerDataRequest\<close>, after the authorization. The customer record
  is read by property name only: \<open>customer name\<close> is the value of
  \<^verbatim>\<open>customer[name]\<close> when it is not \<^verbatim>\<open>undefined\<close>. The model covers the
  properties that hold text, as all the fields of \<^verbatim>\<open>customerSchema\<close> that
  \<^verbatim>\<open>fieldMap\<close> names do.
\<close>

type_synonym customer = "string \<Rightarrow> jsstring option"

type_synonym jsobject = "(jsstring \<times> jsstring) list"

definition customerNotFound :: http_error where
  "customerNotFound = HttpError 404 ''Customer not found''"

text \<open>
  \<^verbatim>\<open>fieldMap\<close>, the object literal that maps the common field names to the encrypted
  fields of the customer model.
\<close>

definition fieldMap :: "string \<Rightarrow> string option" where
  "fieldMap =
     map_of [(''phone'', ''encryptedPhone''), (''email'', ''encryptedEmail''),
             (''pan'', ''encryptedPan''), (''address'', ''encryptedAddress''),
             (''name'', ''encryptedName'')]"

text \<open>
  \<^verbatim>\<open>requestedFields.forEach(field => ...)\<close>: the field itself when the customer has
  it, else the mapped field when the customer has that, else nothing.
\<close>

fun addFields :: "customer \<Rightarrow> string list \<Rightarrow> jsobject \<Rightarrow> jsobject" where
  "addFields customer [] responseData = responseData"
| "addFields customer (field # rest) responseData =
     addFields customer rest
       (case customer field of
          Some v \<Rightarrow> assign (ascii field) v responseData
        | None \<Rightarrow>
            (case fieldMap field of
               None \<Rightarrow> responseData
             | Some mapped \<Rightarrow>
                 (case customer mapped of
                    Some v \<Rightarrow> assign (ascii field) v responseData
                  | None \<Rightarrow> responseData)))"

text \<open>
  What the handler puts into an empty \<^verbatim>\<open>responseData\<close>: \<^verbatim>\<open>testData\<close> and dummy
  values for three common fields.
\<close>

definition testData :: jsobject where
  "testData =
     [(ascii ''testData'', ascii ''This is test data to demonstrate encryption''),
      (ascii ''name'', ascii ''Test Customer''),
      (ascii ''email'', ascii ''test@example.com''),
      (ascii ''phone'', ascii ''+1234567890'')]"

text \<open>
  \<^verbatim>\<open>responseData\<close> as it is after
  \<^verbatim>\<open>if (Object.keys(responseData).length === 0) { ... }\<close>.
\<close>

definition buildResponseData :: "customer \<Rightarrow> string list \<Rightarrow> jsobject" where
  "buildResponseData customer requestedFields =
     (let responseData = addFields customer requestedFields []
      in if length responseData = 0 then testData else responseData)"

text \<open>
  The test that the handler makes on a value before it tries to decrypt it:
  \<^verbatim>\<open>value.includes('"encryptedValue"') && value.includes('"iv"') &&
  value.includes('"authTag"')\<close>.
\<close>

definition quoted :: "string \<Rightarrow> jsstring" where
  "quoted s = ascii ([CHR 0x22] @ s @ [CHR 0x22])"

definition looksEncrypted :: "jsstring \<Rightarrow> bool" where
  "looksEncrypted v =
     (includes_text v (quoted ''encryptedValue'') \<and> includes_text v (quoted ''iv'') \<and>
      includes_text v (quoted ''authTag''))"

text \<open>
  The loop that builds \<^verbatim>\<open>fullyDecryptedData\<close>: a value that looks encrypted is parsed
  and decrypted with the bank's \<^verbatim>\<open>decryptField\<close>; when either step throws the value
  is kept. The same loop for \<^verbatim>\<open>decryptedResponseForLogging\<close> only prints.
\<close>

fun decryptStored :: "node \<Rightarrow> bytes \<Rightarrow> jsobject \<Rightarrow> jsobject \<Rightarrow> jsobject" where
  "decryptStored N key [] acc = acc"
| "decryptStored N key ((name, v) # rest) acc =
     decryptStored N key rest
       (assign name
          (if looksEncrypted v
           then (case parseField N v of
                   None \<Rightarrow> v
                 | Some ef \<Rightarrow>
                     (case decryptField N key ef of
                        Inl err \<Rightarrow> v
                      | Inr decrypted \<Rightarrow> decrypted))
           else v) acc)"

text \<open>
  The encryption of the response: for a partner with a public key
  \<^verbatim>\<open>encryptCustomerFieldsSecure(fullyDecryptedData, publicKey)\<close>; when that throws,
  \<^verbatim>\<open>encryptWithPublicKey(JSON.stringify(responseData), publicKey)\<close>; when that throws
  too, and for a partner without a public key, nothing. The result is
  \<^verbatim>\<open>encryptedResponse\<close> (\<open>None\<close> for \<^verbatim>\<open>null\<close>) and \<^verbatim>\<open>encryptionMethod\<close>.
\<close>

definition encryptResponse ::
  "node \<Rightarrow> partner \<Rightarrow> jsobject \<Rightarrow> jsobject \<Rightarrow> entropy \<Rightarrow> envelope option \<times> string" where
  "encryptResponse N p responseData fullyDecryptedData e =
     (if truthy (publicKey p)
      then (case encryptCustomerFieldsSecure N fullyDecryptedData (the (publicKey p)) e of
              (Inr encryptedResponse, e1) \<Rightarrow> (Some encryptedResponse, ''secure-temporary-key'')
            | (Inl err, e1) \<Rightarrow>
                (case encryptWithPublicKey N (stringifyData N responseData)
                        (the (publicKey p)) e1 of
                   (Inr encryptedResponse, e2) \<Rightarrow> (Some encryptedResponse, ''standard-hybrid'')
                 | (Inl err', e2) \<Rightarrow> (None, ''none'')))
      else (None, ''none''))"

text \<open>
  The body of the 200 response, \<^verbatim>\<open>{ status: 'success', encrypted, data, message }\<close>,
  with \<open>sentData\<close> for \<^verbatim>\<open>data\<close> and \<open>sentMessage\<close> for \<^verbatim>\<open>message\<close>: the
  data are the envelope when there is one and \<^verbatim>\<open>responseData\<close> in clear otherwise.
\<close>

record dataResponse =
  encrypted :: bool
  sentData :: "envelope + jsobject"
  sentMessage :: string

text \<open>
  From \<^verbatim>\<open>responseData\<close> to the response. With it comes the \<^verbatim>\<open>customerData\<close> that
  the handler hands to \<^verbatim>\<open>notificationService.notifyPartnerContractStatus\<close> for the
  push to the partner's callback URL, when the partner has one; what the push does is
  not part of the response.
\<close>

definition respond ::
  "node \<Rightarrow> bytes \<Rightarrow> partner \<Rightarrow> customer \<Rightarrow> string list \<Rightarrow> entropy \<Rightarrow>
   dataResponse \<times> jsobject option" where
  "respond N key p customer requestedFields e =
     (let responseData = buildResponseData customer requestedFields;
          fullyDecryptedData = decryptStored N key responseData [];
          (encryptedResponse, encryptionMethod) =
             encryptResponse N p responseData fullyDecryptedData e
      in (\<lparr> encrypted = (encryptedResponse \<noteq> None),
             sentData = (case encryptedResponse of
                       Some env \<Rightarrow> Inl env
                     | None \<Rightarrow> Inr responseData),
             sentMessage =
               (if truthy (callbackUrl p)
                then ''Data sent via API response and pushed to partner endpoint''
                else ''Data sent via API response only'') \<rparr>,
          if truthy (callbackUrl p)
          then Some (if encryptionMethod = ''secure-temporary-key'' then fullyDecryptedData
                     else responseData)
          else None))"

text \<open>
  \<^verbatim>\<open>partnerDataRequest\<close> as a whole: the authorization, then
  \<^verbatim>\<open>Customer.findById(consent.customerId)\<close> (404 when there is none), then
  \<^verbatim>\<open>DataRequest.create\<close>, then the response. \<open>customers\<close> is the customer
  collection by id; \<open>created\<close> is the message of the error that
  \<^verbatim>\<open>DataRequest.create\<close> throws, if it throws (a validation error, a duplicate
  \<^verbatim>\<open>requestId\<close>), which goes to \<^verbatim>\<open>errorHandler\<close>. The audit event between the
  two is only printed.
\<close>

definition partnerDataRequest ::
  "env \<Rightarrow> node \<Rightarrow> request_verifier \<Rightarrow> bytes \<Rightarrow> (string \<Rightarrow> customer option) \<Rightarrow> string option \<Rightarrow>
   int \<Rightarrow> partner \<Rightarrow> string \<Rightarrow> string list \<Rightarrow> string \<Rightarrow> string option \<Rightarrow> consent list \<Rightarrow>
   entropy \<Rightarrow> (http_error + dataResponse \<times> jsobject option) \<times> consent list" where
  "partnerDataRequest E N verifySignature key customers created now p cid requestedFields
     requestId signature consents e =
     (case authorizeDisclosure E verifySignature now p cid requestedFields requestId signature
             consents of
        (Inl err, consents') \<Rightarrow> (Inl err, consents')
      | (Inr c, consents') \<Rightarrow>
          (case customers (consent.customerId c) of
             None \<Rightarrow> (Inl customerNotFound, consents')
           | Some customer \<Rightarrow>
               (case created of
                  Some message \<Rightarrow> (Inl (errorHandler message), consents')
                | None \<Rightarrow> (Inr (respond N key p customer requestedFields e), consents'))))"

section \<open>What is assumed of the platform\<close>

text \<open>
  AES-256-GCM decrypts what it encrypted: for a 32-byte key and a 16-byte IV, the
  ciphertext with its own tag gives the plaintext back.
\<close>

definition gcm_correct :: "node \<Rightarrow> bool" where
  "gcm_correct N =
     (\<forall>key ivBytes plaintext. length key = 32 \<longrightarrow> length ivBytes = 16 \<longrightarrow>
        aesGcmDecrypt N key ivBytes (snd (aesGcmEncrypt N key ivBytes plaintext))
          (fst (aesGcmEncrypt N key ivBytes plaintext)) = Inr plaintext)"

text \<open>Flipping bit \<open>i\<close> of a buffer (bit \<open>i mod 8\<close> of byte \<open>i div 8\<close>).\<close>

definition flipBit :: "nat \<Rightarrow> bytes \<Rightarrow> bytes" where
  "flipBit i bs = bs[i div 8 := (bs ! (i div 8)) XOR push_bit (i mod 8) 1]"

text \<open>
  AES-256-GCM detects a flipped bit: with one bit of the ciphertext changed and the tag
  kept, or one bit of the tag changed and the ciphertext kept, decryption throws.
\<close>

definition gcm_detects_flips :: "node \<Rightarrow> bool" where
  "gcm_detects_flips N =
     (\<forall>key ivBytes plaintext i. length key = 32 \<longrightarrow> length ivBytes = 16 \<longrightarrow>
        (i < 8 * length (fst (aesGcmEncrypt N key ivBytes plaintext)) \<longrightarrow>
           isl (aesGcmDecrypt N key ivBytes (snd (aesGcmEncrypt N key ivBytes plaintext))
                  (flipBit i (fst (aesGcmEncrypt N key ivBytes plaintext))))) \<and>
        (i < 8 * length (snd (aesGcmEncrypt N key ivBytes plaintext)) \<longrightarrow>
           isl (aesGcmDecrypt N key ivBytes
                  (flipBit i (snd (aesGcmEncrypt N key ivBytes plaintext)))
                  (fst (aesGcmEncrypt N key ivBytes plaintext)))))"

text \<open>Base64 gives back the bytes it encoded.\<close>

definition base64_correct :: "node \<Rightarrow> bool" where
  "base64_correct N = (\<forall>bs. fromBase64 N (toBase64 N bs) = bs)"

text \<open>
  A string written as UTF-8 and read back is the string with every lone surrogate
  replaced by U+FFFD.
\<close>

definition utf8_correct :: "node \<Rightarrow> bool" where
  "utf8_correct N = (\<forall>s. fromUtf8 N (utf8 N s) = toWellFormed s)"

text \<open>
  JSON gives back the payload it wrote: the text of \<^verbatim>\<open>JSON.stringify\<close> has no lone
  surrogate, and \<^verbatim>\<open>JSON.parse\<close> of it is a payload with the same \<open>tempKey\<close> and
  \<open>algorithm\<close> and the same encrypted field under every name. This is asked of the
  payloads that are objects: no name occurs twice.
\<close>

definition json_correct :: "node \<Rightarrow> bool" where
  "json_correct N =
     (\<forall>pl. distinct (map fst (encryptedFields pl)) \<longrightarrow>
        isWellFormed (stringify N pl) \<and>
        (case parse N (stringify N pl) of
           Inl message \<Rightarrow> False
         | Inr pl' \<Rightarrow>
             distinct (map fst (encryptedFields pl')) \<and>
             map_of (encryptedFields pl') = map_of (encryptedFields pl) \<and>
             tempKey pl' = tempKey pl \<and>
             payload.algorithm pl' = payload.algorithm pl))"

text \<open>
  An RSA key pair: a 32-byte message encrypted under the public key (in PEM armour,
  with any 32-byte seed) is decrypted to itself under the private key.
\<close>

definition rsa_keypair :: "node \<Rightarrow> string \<Rightarrow> string \<Rightarrow> bool" where
  "rsa_keypair N publicKeyString privateKey =
     (\<forall>seed message. length seed = 32 \<longrightarrow> length message = 32 \<longrightarrow>
        (case publicEncrypt N (toPem publicKeyString) seed message of
           Inl err \<Rightarrow> False
         | Inr wrapped \<Rightarrow> privateDecrypt N privateKey wrapped = Inr message))"

text \<open>
  The stored field with bit \<open>i\<close> of its ciphertext, or of its authentication tag,
  flipped.
\<close>

definition flipCiphertextBit :: "nat \<Rightarrow> encryptedField \<Rightarrow> encryptedField" where
  "flipCiphertextBit i ef = ef\<lparr>encryptedValue := toHex (flipBit i (fromHex (encryptedValue ef)))\<rparr>"

definition flipAuthTagBit :: "nat \<Rightarrow> encryptedField \<Rightarrow> encryptedField" where
  "flipAuthTagBit i ef =
     ef\<lparr>encryptedField.authTag := toHex (flipBit i (fromHex (encryptedField.authTag ef)))\<rparr>"

section \<open>A small platform for the examples\<close>

text \<open>
  A stand-in for Node that meets the assumptions above, used to run the services on
  concrete inputs: the cipher leaves the text as it is and tags it with key, IV and
  text; the RSA wrapping prepends the seed; base64 is hex; a string is written with one
  byte for a code unit below 128, as UTF-8 does, and with a marker byte and two bytes
  for every other code unit; the payload is written with length prefixes in unary, its
  names in hex.
\<close>

definition toyEncrypt :: "bytes \<Rightarrow> bytes \<Rightarrow> bytes \<Rightarrow> bytes \<times> bytes" where
  "toyEncrypt key ivBytes plaintext = (plaintext, key @ ivBytes @ plaintext)"

definition toyDecrypt :: "bytes \<Rightarrow> bytes \<Rightarrow> bytes \<Rightarrow> bytes \<Rightarrow> string + bytes" where
  "toyDecrypt key ivBytes tag ciphertext =
     (if tag = key @ ivBytes @ ciphertext then Inr ciphertext
      else Inl ''Unsupported state or unable to authenticate data'')"

definition toyUnit :: "16 word \<Rightarrow> bytes" where
  "toyUnit u = (if u < 0x80 then [ucast u] else [0xFF, ucast (drop_bit 8 u), ucast u])"

definition toyUnits :: "jsstring \<Rightarrow> bytes" where
  "toyUnits s = concat (map toyUnit s)"

fun toyFromUnits :: "bytes \<Rightarrow> jsstring" where
  "toyFromUnits [] = []"
| "toyFromUnits (b # bs) =
     (if b < 0x80 then ucast b # toyFromUnits bs
      else (case bs of
              hi # lo # rest \<Rightarrow> (push_bit 8 (ucast hi) OR ucast lo) # toyFromUnits rest
            | _ \<Rightarrow> [0xFFFD]))"

definition toyUtf8 :: "jsstring \<Rightarrow> bytes" where
  "toyUtf8 s = toyUnits (toWellFormed s)"

definition encNat :: "nat \<Rightarrow> string" where
  "encNat n = replicate n (CHR ''1'') @ ''0''"

definition decNat :: "string \<Rightarrow> nat \<times> string" where
  "decNat t = (length (takeWhile (\<lambda>c. c = CHR ''1'') t),
               drop 1 (dropWhile (\<lambda>c. c = CHR ''1'') t))"

definition encStr :: "string \<Rightarrow> string" where
  "encStr s = encNat (length s) @ s"

definition decStr :: "string \<Rightarrow> string \<times> string" where
  "decStr t = (let (n, r) = decNat t in (take n r, drop n r))"

definition encEntry :: "jsstring \<times> encryptedField \<Rightarrow> string" where
  "encEntry entry =
     encStr (toHex (toyUnits (fst entry))) @ encStr (encryptedValue (snd entry)) @
     encStr (encryptedField.iv (snd entry)) @ encStr (encryptedField.authTag (snd entry)) @
     encStr (hash (snd entry))"

fun decEntries :: "nat \<Rightarrow> string \<Rightarrow> (jsstring \<times> encryptedField) list \<times> string" where
  "decEntries 0 t = ([], t)"
| "decEntries (Suc n) t =
     (let (name, t1) = decStr t; (v, t2) = decStr t1; (i, t3) = decStr t2;
          (a, t4) = decStr t3; (h, t5) = decStr t4; (rest, t6) = decEntries n t5
      in ((toyFromUnits (fromHex name),
           \<lparr> encryptedValue = v, encryptedField.iv = i, encryptedField.authTag = a,
             hash = h \<rparr>) # rest, t6))"

definition toyStringify :: "payload \<Rightarrow> jsstring" where
  "toyStringify pl =
     ascii (encNat (length (encryptedFields pl)) @ concat (map encEntry (encryptedFields pl)) @
            encStr (tempKey pl) @ encStr (payload.algorithm pl))"

definition toyParse :: "jsstring \<Rightarrow> string + payload" where
  "toyParse text =
     (let t = map (\<lambda>u. char_of (unat u)) text;
          (n, t1) = decNat t; (entries, t2) = decEntries n t1; (k, t3) = decStr t2;
          (a, t4) = decStr t3
      in Inr \<lparr> encryptedFields = entries, tempKey = k, payload.algorithm = a \<rparr>)"

definition toyNode :: node where
  "toyNode = \<lparr> aesGcmEncrypt = toyEncrypt, aesGcmDecrypt = toyDecrypt,
      decipherSetup = (\<lambda>key ivBytes tag. None),
      invalidHexLength = (\<lambda>n. ''The argument is invalid''),
      publicEncrypt = (\<lambda>key seed message. Inr (seed @ message)),
      privateDecrypt = (\<lambda>key wrapped. Inr (drop 32 wrapped)),
      sha256 = (\<lambda>bs. bs), toBase64 = toHex, fromBase64 = fromHex,
      utf8 = toyUtf8, fromUtf8 = toyFromUnits,
      stringify = toyStringify, parse = toyParse,
      stringifyData = (\<lambda>obj. concat (map (\<lambda>(name, v). name @ ascii '':'' @ v @ ascii '';'') obj)),
      parseField = (\<lambda>text. None) \<rparr>"

text \<open>
  Concrete data: the service's key, a random source that repeats itself, and customer
  data: two plain fields, a field with the empty text, a field named \<^verbatim>\<open>__proto__\<close>,
  and a value that is a lone surrogate.
\<close>

definition key0 :: jsstring where
  "key0 = ascii ''0123456789abcdef0123456789abcdef''"

definition zeros :: entropy where
  "zeros = sconst 0"

definition fields0 :: "(jsstring \<times> jsstring) list" where
  "fields0 = [(ascii ''name'', ascii ''alice''), (ascii ''email'', ascii ''a@example.com'')]"

definition fields_empty_value :: "(jsstring \<times> jsstring) list" where
  "fields_empty_value = [(ascii ''name'', [])]"

definition fields_proto :: "(jsstring \<times> jsstring) list" where
  "fields_proto = [(ascii ''__proto__'', ascii ''alice'')]"

definition fields_surrogate :: "(jsstring \<times> jsstring) list" where
  "fields_surrogate = [(ascii ''name'', [0xD800])]"

text \<open>
  A partner with a public key and a callback URL, and a customer collection whose one
  customer has none of the fields a request can name.
\<close>

definition partner_keyed :: partner where
  "partner_keyed = partner0\<lparr>publicKey := Some ''pub'', callbackUrl := Some ''https://partner.example/callback''\<rparr>"

definition customer0 :: customer where
  "customer0 name = None"

definition customers0 :: "string \<Rightarrow> customer option" where
  "customers0 cid = (if cid = ''cust-1'' then Some customer0 else None)"

chapter \<open>Part II: theorems\<close>

section \<open>Collections\<close>

lemma findOne_Some:
  "findOne P xs = Some i \<Longrightarrow> i < length xs \<and> P (xs ! i)"
proof (induction xs arbitrary: i)
  case Nil
  then show ?case by simp
next
  case (Cons x xs)
  then show ?case by (cases "P x") (auto simp: nth_Cons')
qed

lemma findOne_None: "findOne P xs = None \<longleftrightarrow> (\<forall>x \<in> set xs. \<not> P x)"
  by (induction xs) auto

section \<open>Invalid fields\<close>

lemma set_invalidFields:
  "set (invalidFields requestedFields c) = set requestedFields - set (consent.allowedDataFields c)"
  by (auto simp: invalidFields_def)

lemma invalidFields_empty:
  "invalidFields requestedFields c = [] \<longleftrightarrow> set requestedFields \<subseteq> set (consent.allowedDataFields c)"
  by (auto simp: invalidFields_def filter_empty_conv)

section \<open>Authorization outcomes\<close>

lemma authorize_errors_distinct:
  "consentExpired \<noteq> fieldsNotAllowed xs" "consentExpired \<noteq> invalidSignature"
  "consentExpired \<noteq> noActiveConsent" "consentExpired \<noteq> partnerNotApproved"
  "consentExpired \<noteq> HttpError 500 m" "consentExpired \<noteq> documentInvalid paths"
  "fieldsNotAllowed xs \<noteq> invalidSignature" "fieldsNotAllowed xs \<noteq> noActiveConsent"
  "fieldsNotAllowed xs \<noteq> partnerNotApproved" "fieldsNotAllowed xs \<noteq> HttpError 500 m"
  "fieldsNotAllowed xs \<noteq> documentInvalid paths"
  by (simp_all add: consentExpired_def fieldsNotAllowed_def invalidSignature_def
      noActiveConsent_def partnerNotApproved_def documentInvalid_def)

text \<open>What \<open>join\<close> writes: the first element, then every other one after a separator.\<close>

lemma join_concat:
  "join sep xs = (case xs of [] \<Rightarrow> [] | x # rest \<Rightarrow> x @ concat (map (\<lambda>y. sep @ y) rest))"
  by (induction sep xs rule: join.induct) simp_all

lemma checkFields_None:
  "checkFields requestedFields c = None \<longleftrightarrow>
   set requestedFields \<subseteq> set (consent.allowedDataFields c)"
  by (simp add: checkFields_def invalidFields_empty)

lemma checkFields_Some:
  "checkFields requestedFields c = Some (fieldsNotAllowed (invalidFields requestedFields c)) \<longleftrightarrow>
   \<not> set requestedFields \<subseteq> set (consent.allowedDataFields c)"
  by (simp add: checkFields_def invalidFields_empty)

lemma saveConsent_cases:
  "saveConsent E now i c cs = Inl e \<Longrightarrow> e = documentInvalid (validateDocument E c)"
  "saveConsent E now i c cs = Inr cs' \<Longrightarrow> cs' = cs[i := c\<lparr>consent.updatedAt := now\<rparr>]"
  by (auto simp: saveConsent_def split: if_splits)

lemma validateDocument_status:
  assumes "validateDocument E c = []" and "s \<in> set consent_status_enum"
  shows "validateDocument E (c\<lparr>consent.status := s\<rparr>) = []"
    and "validateDocument E (c\<lparr>consent.status := s, consent.updatedAt := t\<rparr>) = []"
  using assms by (simp_all add: validateDocument_def split: if_splits)

lemma validateDocument_status_invalid:
  assumes "validateDocument E c \<noteq> []" and "consent.status c \<in> set consent_status_enum"
    and "s \<in> set consent_status_enum"
  shows "validateDocument E (c\<lparr>consent.status := s\<rparr>) = validateDocument E c"
  using assms by (simp add: validateDocument_def)

lemma authorize_allowedDataFields:
  "map consent.allowedDataFields (snd (authorizeDisclosure E vs now p cid rf rid sg cs)) =
   map consent.allowedDataFields cs"
  by (auto simp: authorizeDisclosure_def Let_def map_update list_update_same_conv
      findActiveConsent_def saveConsent_def dest!: findOne_Some
      split: option.splits sum.splits if_splits)

lemma authorize_Inr:
  assumes "authorizeDisclosure E vs now p cid rf rid sg cs = (Inr c, cs')"
  shows "cs' = cs \<and> c \<in> set cs \<and> set rf \<subseteq> set (consent.allowedDataFields c)"
  using assms
  by (auto simp: authorizeDisclosure_def Let_def findActiveConsent_def checkFields_None
      dest!: findOne_Some split: option.splits if_splits sum.splits)

lemma authorize_not_expired:
  assumes "checkPartner p = None"
    and "findActiveConsent cid (partner.partnerId p) cs = Some i"
    and "\<not> now > consent.expiresAt (cs ! i)"
  shows "authorizeDisclosure E vs now p cid rf rid sg cs =
           (case checkFields rf (cs ! i) of
              Some e \<Rightarrow> Inl e
            | None \<Rightarrow>
               (case checkSignature vs p rid cid rf sg of
                  Some e \<Rightarrow> Inl e
                | None \<Rightarrow> Inr (cs ! i)), cs)"
  using assms by (simp add: authorizeDisclosure_def Let_def split: option.splits)

lemma checkSignature_not_fields:
  "checkSignature vs p rid cid rf sg \<noteq> Some (fieldsNotAllowed xs)"
  by (auto simp: checkSignature_def fieldsNotAllowed_def invalidSignature_def
      errorHandler_def split: sum.splits if_splits)

lemma checkSignature_not_expired:
  "checkSignature vs p rid cid rf sg \<noteq> Some consentExpired"
  by (auto simp: checkSignature_def consentExpired_def invalidSignature_def
      errorHandler_def split: sum.splits if_splits)

lemma authorize_reaches_fields:
  assumes "checkPartner p = None"
    and "findActiveConsent cid (partner.partnerId p) cs = Some i"
    and "\<not> now > consent.expiresAt (cs ! i)"
  shows "fst (authorizeDisclosure E vs now p cid rf rid sg cs) =
           Inl (fieldsNotAllowed (invalidFields rf (cs ! i))) \<longleftrightarrow>
         \<not> set rf \<subseteq> set (consent.allowedDataFields (cs ! i))"
proof (cases "checkFields rf (cs ! i)")
  case None
  then have sub: "set rf \<subseteq> set (consent.allowedDataFields (cs ! i))"
    by (simp add: checkFields_None)
  from None have "fst (authorizeDisclosure E vs now p cid rf rid sg cs) \<noteq>
      Inl (fieldsNotAllowed (invalidFields rf (cs ! i)))"
    using checkSignature_not_fields [of vs p rid cid rf sg "invalidFields rf (cs ! i)"]
    by (auto simp: authorize_not_expired [OF assms] split: option.splits)
  with sub show ?thesis by simp
next
  case (Some e)
  then have e: "e = fieldsNotAllowed (invalidFields rf (cs ! i))"
    and nsub: "\<not> set rf \<subseteq> set (consent.allowedDataFields (cs ! i))"
    by (auto simp: checkFields_def invalidFields_empty split: if_splits)
  from Some have "fst (authorizeDisclosure E vs now p cid rf rid sg cs) = Inl e"
    by (simp add: authorize_not_expired [OF assms])
  with e nsub show ?thesis by simp
qed

lemma authorize_expired:
  assumes "checkPartner p = None"
    and "findActiveConsent cid (partner.partnerId p) cs = Some i"
    and "now > consent.expiresAt (cs ! i)"
  shows "authorizeDisclosure E vs now p cid rf rid sg cs =
           (if validateDocument E ((cs ! i)\<lparr>consent.status := ''expired''\<rparr>) = []
            then (Inl consentExpired,
                  cs[i := (cs ! i)\<lparr>consent.status := ''expired'', consent.updatedAt := now\<rparr>])
            else (Inl (documentInvalid
                         (validateDocument E ((cs ! i)\<lparr>consent.status := ''expired''\<rparr>))), cs))"
  using assms by (simp add: authorizeDisclosure_def Let_def saveConsent_def)

lemma authorize_not_found:
  assumes "checkPartner p = None"
    and "findActiveConsent cid (partner.partnerId p) cs = None"
  shows "authorizeDisclosure E vs now p cid rf rid sg cs = (Inl noActiveConsent, cs)"
  using assms by (simp add: authorizeDisclosure_def)

lemma findActiveConsent_Some:
  "findActiveConsent cid pid cs = Some i \<Longrightarrow>
   i < length cs \<and> consent.consentId (cs ! i) = cid \<and> consent.partnerId (cs ! i) = pid \<and>
   consent.status (cs ! i) = ''active''"
  by (auto simp: findActiveConsent_def dest: findOne_Some)

lemma findActiveConsent_None:
  "findActiveConsent cid pid cs = None \<longleftrightarrow>
   (\<forall>c \<in> set cs. consent.consentId c = cid \<and> consent.partnerId c = pid \<longrightarrow>
      consent.status c \<noteq> ''active'')"
  by (auto simp: findActiveConsent_def findOne_None)

lemma expired_in_enum: "''expired'' \<in> set consent_status_enum"
  and revoked_in_enum: "''revoked'' \<in> set consent_status_enum"
  and active_in_enum: "''active'' \<in> set consent_status_enum"
  by (simp_all add: consent_status_enum_def)

lemma checkPartner_partner0: "checkPartner partner0 = None"
  by (simp add: checkPartner_def partner0_def)

lemma validateDocument_consent0: "validateDocument env0 consent0 = []"
  by (simp add: validateDocument_def requiredText_def consent0_def env0_def
      consent_status_enum_def)

section \<open>The field check\<close>




section \<open>Expiry\<close>

text \<open>
  C5, as stated, fails. The consent is looked up with \<open>status: 'active'\<close>, so a consent
  whose stored status is \<open>revoked\<close> and whose \<open>expiresAt\<close> lies in the past is
  answered with \<open>No active consent found\<close> (404), not with \<open>Consent expired\<close>, and
  is not transitioned. And the transition is saved through \<open>consent.save()\<close>, which
  validates the document first: for an active, expired consent whose
  \<open>consentDuration\<close> lies below the configured minimum the save throws, the answer is
  a 500, and the stored status stays \<open>active\<close>.
\<close>

theorem consent_expired_regardless_of_status_counterexample:
  "4000000 > consent.expiresAt consent_revoked \<and>
   consent.status consent_revoked = ''revoked'' \<and>
   authorizeDisclosure env0 noVerifier 4000000 partner0 ''c-1'' [''phone''] ''r-1'' None
     [consent_revoked] = (Inl noActiveConsent, [consent_revoked]) \<and>
   noActiveConsent \<noteq> consentExpired \<and>
   4000000 > consent.expiresAt consent_short \<and>
   consent.status consent_short = ''active'' \<and>
   authorizeDisclosure env0 noVerifier 4000000 partner0 ''c-1'' [''phone''] ''r-1'' None
     [consent_short] =
     (Inl (HttpError 500
            ''Consent validation failed: consentDuration: Consent duration must be at least 1 hour(s)''),
      [consent_short]) \<and>
   HttpError 500
     ''Consent validation failed: consentDuration: Consent duration must be at least 1 hour(s)'' \<noteq>
     consentExpired"
proof -
  have a: "authorizeDisclosure env0 noVerifier 4000000 partner0 ''c-1'' [''phone''] ''r-1''
      None [consent_revoked] = (Inl noActiveConsent, [consent_revoked])"
    by (rule authorize_not_found [OF checkPartner_partner0])
      (simp add: findActiveConsent_def consent_revoked_def)
  have f: "findActiveConsent ''c-1'' (partner.partnerId partner0) [consent_short] = Some 0"
    by (simp add: findActiveConsent_def partner0_def consent_short_def consent0_def)
  have e: "4000000 > consent.expiresAt ([consent_short] ! 0)"
    by (simp add: consent_short_def consent0_def)
  have v: "validateDocument env0 (consent_short\<lparr>consent.status := ''expired''\<rparr>) =
      [(''consentDuration'', ''Consent duration must be at least 1 hour(s)'')]"
    by (simp add: validateDocument_def requiredText_def consent_short_def consent0_def
        env0_def consent_status_enum_def)
  have b: "authorizeDisclosure env0 noVerifier 4000000 partner0 ''c-1'' [''phone''] ''r-1''
      None [consent_short] =
      (Inl (HttpError 500
            ''Consent validation failed: consentDuration: Consent duration must be at least 1 hour(s)''),
      [consent_short])"
    by (simp add: authorize_expired [OF checkPartner_partner0 f e] v documentInvalid_def)
  show ?thesis
    using a b
    by (simp add: consent_revoked_def consent_short_def consent0_def noActiveConsent_def
        consentExpired_def)
qed

text \<open>
  C5, amended. For a data request of an active partner with an approved contract:
  when the lookup finds a consent (same \<open>consentId\<close> and \<open>partnerId\<close>, stored status
  \<open>active\<close>) that passes the validation of the schema, the request fails with
  \<open>Consent expired\<close> exactly when \<open>now > expiresAt\<close>, and then the collection
  returned with the failure holds that consent with status \<open>expired\<close> (and no other
  change but its \<open>updatedAt\<close>); when it is not expired the collection is unchanged.
  When the consent found is expired but fails the validation, the request fails with the
  validation error (500) and nothing is changed. When every consent with that
  \<open>consentId\<close> and \<open>partnerId\<close> has a stored status other than \<open>active\<close>, the
  request fails with \<open>No active consent found\<close> whatever \<open>expiresAt\<close> is, and
  nothing is changed.
\<close>

theorem consent_expired_iff:
  assumes "checkPartner p = None"
  shows "(findActiveConsent cid (partner.partnerId p) cs = Some i \<longrightarrow>
            consent.status (cs ! i) = ''active'' \<and>
            (validateDocument E (cs ! i) = [] \<longrightarrow>
               (fst (authorizeDisclosure E vs now p cid rf rid sg cs) = Inl consentExpired \<longleftrightarrow>
                  now > consent.expiresAt (cs ! i)) \<and>
               (now > consent.expiresAt (cs ! i) \<longrightarrow>
                  snd (authorizeDisclosure E vs now p cid rf rid sg cs) =
                    cs[i := (cs ! i)\<lparr>consent.status := ''expired'',
                                      consent.updatedAt := now\<rparr>] \<and>
                  consent.status (snd (authorizeDisclosure E vs now p cid rf rid sg cs) ! i) =
                    ''expired'')) \<and>
            (validateDocument E (cs ! i) \<noteq> [] \<longrightarrow> now > consent.expiresAt (cs ! i) \<longrightarrow>
               authorizeDisclosure E vs now p cid rf rid sg cs =
                 (Inl (documentInvalid (validateDocument E (cs ! i))), cs)) \<and>
            (\<not> now > consent.expiresAt (cs ! i) \<longrightarrow>
               snd (authorizeDisclosure E vs now p cid rf rid sg cs) = cs)) \<and>
         ((\<forall>c \<in> set cs. consent.consentId c = cid \<and>
               consent.partnerId c = partner.partnerId p \<longrightarrow>
               consent.status c \<noteq> ''active'') \<longrightarrow>
            authorizeDisclosure E vs now p cid rf rid sg cs = (Inl noActiveConsent, cs))"
proof (intro conjI impI)
  assume f: "findActiveConsent cid (partner.partnerId p) cs = Some i"
  from f show act: "consent.status (cs ! i) = ''active''"
    by (simp add: findActiveConsent_Some)
  from f have len: "i < length cs"
    by (simp add: findActiveConsent_Some)
  {
    assume v: "validateDocument E (cs ! i) = []"
    then have v': "validateDocument E ((cs ! i)\<lparr>consent.status := ''expired''\<rparr>) = []"
      by (rule validateDocument_status(1)) (rule expired_in_enum)
    show "fst (authorizeDisclosure E vs now p cid rf rid sg cs) = Inl consentExpired \<longleftrightarrow>
        now > consent.expiresAt (cs ! i)"
    proof (cases "now > consent.expiresAt (cs ! i)")
      case True
      then show ?thesis
        by (simp add: authorize_expired [OF assms f True] v')
    next
      case False
      have "checkFields rf (cs ! i) \<noteq> Some consentExpired"
        by (simp add: checkFields_def fieldsNotAllowed_def consentExpired_def)
      with False show ?thesis
        using checkSignature_not_expired [of vs p rid cid rf sg]
        by (auto simp: authorize_not_expired [OF assms f False] split: option.splits)
    qed
    {
      assume e: "now > consent.expiresAt (cs ! i)"
      show u: "snd (authorizeDisclosure E vs now p cid rf rid sg cs) =
          cs[i := (cs ! i)\<lparr>consent.status := ''expired'', consent.updatedAt := now\<rparr>]"
        by (simp add: authorize_expired [OF assms f e] v')
      show "consent.status (snd (authorizeDisclosure E vs now p cid rf rid sg cs) ! i) =
          ''expired''"
        using len by (simp add: u)
    }
  }
  {
    assume nv: "validateDocument E (cs ! i) \<noteq> []" and e: "now > consent.expiresAt (cs ! i)"
    from nv act have "validateDocument E ((cs ! i)\<lparr>consent.status := ''expired''\<rparr>) =
        validateDocument E (cs ! i)"
      by (intro validateDocument_status_invalid) (simp_all add: consent_status_enum_def)
    with nv show "authorizeDisclosure E vs now p cid rf rid sg cs =
        (Inl (documentInvalid (validateDocument E (cs ! i))), cs)"
      by (simp add: authorize_expired [OF assms f e])
  }
  {
    assume ne: "\<not> now > consent.expiresAt (cs ! i)"
    show "snd (authorizeDisclosure E vs now p cid rf rid sg cs) = cs"
      by (simp add: authorize_not_expired [OF assms f ne])
  }
next
  assume "\<forall>c \<in> set cs. consent.consentId c = cid \<and>
      consent.partnerId c = partner.partnerId p \<longrightarrow> consent.status c \<noteq> ''active''"
  then have "findActiveConsent cid (partner.partnerId p) cs = None"
    by (simp add: findActiveConsent_None)
  with assms show "authorizeDisclosure E vs now p cid rf rid sg cs = (Inl noActiveConsent, cs)"
    by (rule authorize_not_found)
qed

theorem consent_expired_iff_witness:
  "checkPartner partner0 = None \<and>
   findActiveConsent ''c-1'' (partner.partnerId partner0) [consent0] = Some 0 \<and>
   validateDocument env0 ([consent0] ! 0) = [] \<and>
   4000000 > consent.expiresAt ([consent0] ! 0) \<and>
   authorizeDisclosure env0 noVerifier 4000000 partner0 ''c-1'' [''phone''] ''r-1'' None
     [consent0] =
     (Inl consentExpired,
      [consent0\<lparr>consent.status := ''expired'', consent.updatedAt := 4000000\<rparr>]) \<and>
   findActiveConsent ''c-1'' (partner.partnerId partner0) [consent_short] = Some 0 \<and>
   validateDocument env0 ([consent_short] ! 0) \<noteq> [] \<and>
   4000000 > consent.expiresAt ([consent_short] ! 0) \<and>
   authorizeDisclosure env0 noVerifier 4000000 partner0 ''c-1'' [''phone''] ''r-1'' None
     [consent_short] =
     (Inl (documentInvalid (validateDocument env0 ([consent_short] ! 0))), [consent_short]) \<and>
   consent.status consent_revoked \<noteq> ''active'' \<and>
   authorizeDisclosure env0 noVerifier 4000000 partner0 ''c-1'' [''phone''] ''r-1'' None
     [consent_revoked] = (Inl noActiveConsent, [consent_revoked])"
proof -
  have h1: "checkPartner partner0 = None"
    by (rule checkPartner_partner0)
  have h2: "findActiveConsent ''c-1'' (partner.partnerId partner0) [consent0] = Some 0"
    by (simp add: findActiveConsent_def partner0_def consent0_def)
  have h3: "4000000 > consent.expiresAt ([consent0] ! 0)"
    by (simp add: consent0_def)
  have h4: "\<forall>c \<in> set [consent_revoked].
      consent.consentId c = ''c-1'' \<and> consent.partnerId c = partner.partnerId partner0 \<longrightarrow>
      consent.status c \<noteq> ''active''"
    by (simp add: consent_revoked_def)
  have h5: "consent.status consent_revoked \<noteq> ''active''"
    by (simp add: consent_revoked_def)
  have h6: "validateDocument env0 ([consent0] ! 0) = []"
    by (simp add: validateDocument_consent0)
  have h7: "findActiveConsent ''c-1'' (partner.partnerId partner0) [consent_short] = Some 0"
    by (simp add: findActiveConsent_def partner0_def consent_short_def consent0_def)
  have h8: "validateDocument env0 ([consent_short] ! 0) \<noteq> []"
    by (simp add: validateDocument_def requiredText_def consent_short_def consent0_def
        env0_def)
  have h9: "4000000 > consent.expiresAt ([consent_short] ! 0)"
    by (simp add: consent_short_def consent0_def)
  show ?thesis
    using h1 h2 h3 h4 h5 h6 h7 h8 h9
      consent_expired_iff [OF h1, of "''c-1''" "[consent0]" 0 env0 noVerifier 4000000
        "[''phone'']" "''r-1''" None]
      consent_expired_iff [OF h1, of "''c-1''" "[consent_short]" 0 env0 noVerifier 4000000
        "[''phone'']" "''r-1''" None]
      consent_expired_iff [OF h1, of "''c-1''" "[consent_revoked]" 0 env0 noVerifier 4000000
        "[''phone'']" "''r-1''" None]
    by (simp add: prod_eq_iff)
qed

section \<open>Updating and revoking\<close>

lemma permitted_applyUpdate [simp]: "permitted u (applyUpdate upd c) = permitted u c"
  by (simp add: permitted_def applyUpdate_def)

lemma updateConsent_found:
  assumes "findOne (\<lambda>c. consent.consentId c = cid) cs = Some i"
    and "buildUpdateData E now body (Some (cs ! i)) = Inr upd"
    and "runValidators E upd = None"
  shows "updateConsent E now u cid body cs =
           (if permitted u (cs ! i) then Inr (applyUpdate upd (cs ! i))
            else Inl noUpdatePermission,
            cs[i := applyUpdate upd (cs ! i)])"
  using assms by (simp add: updateConsent_def Let_def)

lemma buildUpdateData_fields:
  assumes "buildUpdateData E now body found = Inr upd"
  shows "updateData.updatedAt upd = now"
    and "updateData.allowedDataFields upd = updateBody.allowedDataFields body"
    and "truthy (updateBody.status body) \<Longrightarrow> updateData.status upd = updateBody.status body"
  using assms by (auto simp: buildUpdateData_def Let_def split: if_splits)

lemma revokeConsent_found:
  assumes "findOne (\<lambda>c. consent.consentId c = cid) cs = Some i"
    and "permitted u (cs ! i)"
  shows "revokeConsent E now u cid cs =
           (if validateDocument E ((cs ! i)\<lparr>consent.status := ''revoked''\<rparr>) = []
            then (Inr ((cs ! i)\<lparr>consent.status := ''revoked'', consent.updatedAt := now\<rparr>),
                  cs[i := (cs ! i)\<lparr>consent.status := ''revoked'', consent.updatedAt := now\<rparr>])
            else (Inl (documentInvalid
                         (validateDocument E ((cs ! i)\<lparr>consent.status := ''revoked''\<rparr>))), cs))"
proof -
  from assms(1) have len: "i < length cs"
    by (auto dest: findOne_Some)
  have v: "validateDocument E ((cs ! i)\<lparr>consent.status := ''revoked'', consent.updatedAt := now\<rparr>) =
      validateDocument E ((cs ! i)\<lparr>consent.status := ''revoked''\<rparr>)"
    by (simp add: validateDocument_def)
  show ?thesis
    using assms len by (simp add: revokeConsent_def Let_def saveConsent_def v)
qed

lemma authorize_keeps_inactive:
  assumes "j < length cs" and "consent.status (cs ! j) \<noteq> ''active''"
  shows "snd (authorizeDisclosure E vs now p cid rf rid sg cs) ! j = cs ! j"
proof (cases "checkPartner p = None \<and>
    (\<exists>i. findActiveConsent cid (partner.partnerId p) cs = Some i)")
  case True
  then obtain i where p: "checkPartner p = None"
    and f: "findActiveConsent cid (partner.partnerId p) cs = Some i"
    by blast
  from f assms have ij: "i \<noteq> j"
    by (auto dest: findActiveConsent_Some)
  show ?thesis
  proof (cases "now > consent.expiresAt (cs ! i)")
    case True
    with ij show ?thesis
      by (simp add: authorize_expired [OF p f True])
  next
    case False
    then show ?thesis
      by (simp add: authorize_not_expired [OF p f False])
  qed
next
  case False
  then have "snd (authorizeDisclosure E vs now p cid rf rid sg cs) = cs"
    by (auto simp: authorizeDisclosure_def split: option.splits)
  then show ?thesis by simp
qed




text \<open>
  C10. \<open>updateConsent\<close> writes before it tests the caller's permission: when the
  consent exists, the body passes the duration check and the validators, and the caller
  is neither an admin nor the customer who owns the consent, the answer is the 403
  permission error and the collection returned with it holds the updated consent: its
  \<open>updatedAt\<close> is the time of the call, and every \<open>allowedDataFields\<close> and every
  non-empty \<open>status\<close> of the body has been stored.
\<close>

theorem update_before_permission_check:
  assumes "findOne (\<lambda>c. consent.consentId c = cid) cs = Some i"
    and "buildUpdateData E now body (Some (cs ! i)) = Inr upd"
    and "runValidators E upd = None"
    and "role u \<noteq> ''admin''"
    and "\<not> (role u = ''customer'' \<and> user.customerId u = Some (consent.customerId (cs ! i)))"
  shows "updateConsent E now u cid body cs =
           (Inl (HttpError 403 ''You do not have permission to update this consent''),
            cs[i := applyUpdate upd (cs ! i)]) \<and>
         consent.updatedAt (snd (updateConsent E now u cid body cs) ! i) = now \<and>
         (\<forall>fs. updateBody.allowedDataFields body = Some fs \<longrightarrow>
            consent.allowedDataFields (snd (updateConsent E now u cid body cs) ! i) = fs) \<and>
         (\<forall>s. updateBody.status body = Some s \<longrightarrow> s \<noteq> [] \<longrightarrow>
            consent.status (snd (updateConsent E now u cid body cs) ! i) = s) \<and>
         (consent.updatedAt (cs ! i) \<noteq> now \<longrightarrow>
            snd (updateConsent E now u cid body cs) \<noteq> cs)"
proof -
  from assms(4,5) have np: "\<not> permitted u (cs ! i)"
    by (simp add: permitted_def)
  from assms(1) have len: "i < length cs"
    by (auto dest: findOne_Some)
  have r: "updateConsent E now u cid body cs =
      (Inl noUpdatePermission, cs[i := applyUpdate upd (cs ! i)])"
    using updateConsent_found [OF assms(1-3), of u] np by simp
  have u1: "consent.updatedAt (applyUpdate upd (cs ! i)) = now"
    using buildUpdateData_fields(1) [OF assms(2)] by (simp add: applyUpdate_def)
  have u2: "updateBody.allowedDataFields body = Some fs \<Longrightarrow>
      consent.allowedDataFields (applyUpdate upd (cs ! i)) = fs" for fs
    using buildUpdateData_fields(2) [OF assms(2)] by (simp add: applyUpdate_def)
  have u3: "updateBody.status body = Some s \<Longrightarrow> s \<noteq> [] \<Longrightarrow>
      consent.status (applyUpdate upd (cs ! i)) = s" for s
    using buildUpdateData_fields(3) [OF assms(2)] by (simp add: applyUpdate_def)
  have u4: "consent.updatedAt (cs ! i) \<noteq> now \<Longrightarrow> cs[i := applyUpdate upd (cs ! i)] \<noteq> cs"
    using u1 len by (metis nth_list_update_eq)
  show ?thesis
    using r len u1 u2 u3 u4 by (simp add: noUpdatePermission_def)
qed

theorem update_before_permission_check_witness:
  "findOne (\<lambda>c. consent.consentId c = ''c-1'') [consent0] = Some 0 \<and>
   role otherCustomer \<noteq> ''admin'' \<and>
   \<not> (role otherCustomer = ''customer'' \<and>
      user.customerId otherCustomer = Some (consent.customerId ([consent0] ! 0))) \<and>
   updateBody.allowedDataFields widen = Some [''phone'', ''email'', ''pan''] \<and>
   consent.updatedAt ([consent0] ! 0) \<noteq> 500 \<and>
   updateConsent env0 500 otherCustomer ''c-1'' widen [consent0] =
     (Inl (HttpError 403 ''You do not have permission to update this consent''),
      [consent0\<lparr>consent.allowedDataFields := [''phone'', ''email'', ''pan''],
               consent.updatedAt := 500\<rparr>]) \<and>
   snd (updateConsent env0 500 otherCustomer ''c-1'' widen [consent0]) \<noteq> [consent0]"
proof -
  let ?upd = "\<lparr> updateData.allowedDataFields = Some [''phone'', ''email'', ''pan''],
           updateData.purpose = None, updateData.status = None,
           updateData.consentDuration = None, updateData.expiresAt = None,
           updateData.retentionPeriod = None, updateData.updatedAt = 500 \<rparr>"
  have h1: "findOne (\<lambda>c. consent.consentId c = ''c-1'') [consent0] = Some 0"
    by (simp add: consent0_def)
  have h2: "buildUpdateData env0 500 widen (Some ([consent0] ! 0)) = Inr ?upd"
    by (simp add: buildUpdateData_def widen_def emptyBody_def)
  have h3: "runValidators env0 ?upd = None"
    by (simp add: runValidators_def)
  have h4: "role otherCustomer \<noteq> ''admin''"
    by (simp add: otherCustomer_def)
  have h5: "\<not> (role otherCustomer = ''customer'' \<and>
      user.customerId otherCustomer = Some (consent.customerId ([consent0] ! 0)))"
    by (simp add: otherCustomer_def consent0_def)
  have h6: "updateBody.allowedDataFields widen = Some [''phone'', ''email'', ''pan'']"
    by (simp add: widen_def emptyBody_def)
  have h7: "consent.updatedAt ([consent0] ! 0) \<noteq> 500"
    by (simp add: consent0_def)
  have h8: "applyUpdate ?upd consent0 =
      consent0\<lparr>consent.allowedDataFields := [''phone'', ''email'', ''pan''],
               consent.updatedAt := 500\<rparr>"
    by (simp add: applyUpdate_def consent0_def)
  show ?thesis
    using h1 h4 h5 h6 h7 h8 update_before_permission_check [OF h1 h2 h3 h4 h5]
    by (simp add: consent0_def)
qed

section \<open>The audit log\<close>

text \<open>
  C2. The code does not do what the claim says: \<open>logEvent\<close> leaves the
  \<open>AuditLog\<close> collection as it was, whatever the event, and what it returns carries no
  \<open>eventHash\<close>, \<open>previousHash\<close> or \<open>digitalSignature\<close>: only the generated id, the
  three actor fields and the timestamp. Logging an event into an empty collection
  leaves it empty.
\<close>

theorem logEvent_persists_nothing:
  "auditLogs (snd (logEvent ev uuid now st)) = auditLogs st \<and>
   fst (logEvent ev uuid now st) =
     \<lparr> mockAuditLog.logId = uuid, mockAuditLog.eventType = auditEvent.eventType ev,
       mockAuditLog.actorType = auditEvent.actorType ev,
       mockAuditLog.actorId = auditEvent.actorId ev, timestamp = now \<rparr> \<and>
   auditLogs (snd (logEvent event0 ''id-1'' 1000 emptyAudit)) = []"
  by (simp add: logEvent_def emptyAudit_def)

lemma verifyChain_first_signature:
  "verifyChain vs (first\<lparr>digitalSignature := s\<rparr>) rest = verifyChain vs first rest"
  by (cases rest) simp_all

text \<open>
  The loop accepts exactly the chains whose links all hold and whose entries after the
  first all verify.
\<close>

lemma verifyChain_valid_iff:
  "verifyChain vs first rest = Some (True, m) \<longleftrightarrow>
   linked first rest \<and>
   (\<forall>l \<in> set rest. vs (auditLog.eventHash l) (auditLog.digitalSignature l) = Some True) \<and>
   m = ''Log chain integrity verified''"
  by (induction rest arbitrary: first) (auto split: option.splits)

text \<open>
  C3. The code does not do what the claim says for the first entry of a range: the loop
  starts at the second entry, so the signature of the first one is never verified. For
  the two chained entries \<open>log_a\<close>, \<open>log_b\<close>, where the signature of \<open>log_a\<close> does
  not verify, the result is \<open>valid = true\<close> with the message of a verified chain.
\<close>

theorem first_signature_not_verified:
  "toyVerify (auditLog.eventHash log_a) (auditLog.digitalSignature log_a) = Some False \<and>
   findRange [log_a, log_b] ''a'' ''b'' = [log_a, log_b] \<and>
   verifyLogIntegrity toyVerify [log_a, log_b] ''a'' ''b'' =
     Inr (True, ''Log chain integrity verified'')"
  by (simp add: verifyLogIntegrity_def findRange_def toyVerify_def log_a_def log_b_def)

section \<open>Buffers and encodings\<close>

lemma hexDigits_decode: "list_all (\<lambda>n. hexValue (hexDigit n) = Some n) [0..<16]"
  by (simp add: upt_rec hexValue_def hexDigit_def)

lemma hexValue_hexDigit: "n < 16 \<Longrightarrow> hexValue (hexDigit n) = Some n"
  using hexDigits_decode by (simp add: list_all_iff)

lemma fromHex_toHex [simp]: "fromHex (toHex bs) = bs"
proof (induction bs)
  case Nil
  show ?case by simp
next
  case (Cons b bs)
  have "unat b < 256"
    using unsigned_less [of b] by simp
  then have "unat b div 16 < 16"
    by simp
  with Cons show ?case
    by (simp add: hexValue_hexDigit)
qed

lemma even_length_toHex [simp]: "even (length (toHex bs))"
  by (induction bs) simp_all

lemma xor_bit_neq:
  assumes "k < 8"
  shows "(x :: 8 word) XOR push_bit k 1 \<noteq> x"
proof
  assume "x XOR push_bit k 1 = x"
  then have "x XOR (x XOR push_bit k 1) = x XOR x"
    by simp
  then have "push_bit k (1 :: 8 word) = 0"
    by (simp only: bit.xor_left_self bit.xor_self)
  moreover have "bit (push_bit k (1 :: 8 word)) k"
    using assms by (simp add: bit_simps)
  ultimately have "bit (0 :: 8 word) k"
    by (simp only:)
  then show False by simp
qed

lemma flipBit_neq:
  assumes "i < 8 * length bs"
  shows "flipBit i bs \<noteq> bs"
proof -
  from assms have "i div 8 < length bs"
    by (simp add: less_mult_imp_div_less mult.commute)
  moreover have "(bs ! (i div 8)) XOR push_bit (i mod 8) 1 \<noteq> bs ! (i div 8)"
    by (rule xor_bit_neq) simp
  ultimately show ?thesis
    unfolding flipBit_def by (metis nth_list_update_eq)
qed

lemma length_flipBit [simp]: "length (flipBit i bs) = length bs"
  by (simp add: flipBit_def)

lemma newEncryptionService_Inr:
  "newEncryptionService N encryptionKey = Inr key \<Longrightarrow>
   length key = 32 \<and> key = utf8 N encryptionKey"
  by (auto simp: newEncryptionService_def Let_def split: if_splits)

text \<open>Text of the source has no surrogate.\<close>

lemma unat_ascii_unit: "unat (of_nat (of_char c) :: 16 word) = of_char c"
proof -
  have "(of_char c :: nat) < 65536"
    using nat_of_char_less_256 [of c] by linarith
  then show ?thesis
    by (simp add: unat_of_nat)
qed

lemma ascii_unit:
  fixes c :: char
  shows "\<not> isHigh (of_nat (of_char c))" and "\<not> isLow (of_nat (of_char c))"
proof -
  have c: "\<not> 55296 \<le> (of_char c :: nat)"
    using nat_of_char_less_256 [of c] by linarith
  show "\<not> isHigh (of_nat (of_char c))"
    using c by (simp add: isHigh_def word_le_nat_alt unat_ascii_unit)
  have c': "\<not> 56320 \<le> (of_char c :: nat)"
    using nat_of_char_less_256 [of c] by linarith
  show "\<not> isLow (of_nat (of_char c))"
    using c' by (simp add: isLow_def word_le_nat_alt unat_ascii_unit)
qed

lemma toWellFormed_ascii [simp]: "toWellFormed (ascii t) = ascii t"
proof (induction t rule: induct_list012)
  case 1
  show ?case by (simp add: ascii_def)
next
  case (2 x)
  show ?case by (simp add: ascii_def ascii_unit)
next
  case (3 x y zs)
  then show ?case by (simp add: ascii_def ascii_unit)
qed

lemma isWellFormed_ascii [simp]: "isWellFormed (ascii t)"
  by (simp add: isWellFormed_def)

lemma latin1_ascii [simp]: "map (\<lambda>u. char_of (unat u)) (ascii t) = t"
  by (simp add: ascii_def comp_def unat_ascii_unit)

section \<open>The small platform meets the assumptions\<close>

lemma toy_gcm_correct: "gcm_correct toyNode"
  by (simp add: gcm_correct_def toyNode_def toyEncrypt_def toyDecrypt_def)

lemma toy_gcm_detects_flips: "gcm_detects_flips toyNode"
  by (auto simp: gcm_detects_flips_def toyNode_def toyEncrypt_def toyDecrypt_def
      flipBit_neq dest: flipBit_neq)

lemma toy_base64_correct: "base64_correct toyNode"
  by (simp add: base64_correct_def toyNode_def)

lemma toy_rsa_keypair: "rsa_keypair toyNode publicKeyString privateKey"
  by (simp add: rsa_keypair_def toyNode_def)

lemma toyUnit_split:
  fixes u :: "16 word"
  shows "push_bit 8 (ucast (ucast (drop_bit 8 u) :: 8 word)) OR ucast (ucast u :: 8 word) = u"
  by (rule bit_word_eqI) (auto simp: bit_simps)

lemma toyUnit_small:
  fixes u :: "16 word"
  assumes "u < 0x80"
  shows "(ucast u :: 8 word) < 0x80" and "ucast (ucast u :: 8 word) = u"
proof -
  from assms have n: "unat u < 128"
    by (simp add: word_less_nat_alt)
  then have m: "unat (ucast u :: 8 word) = unat u"
    by (simp add: unsigned_ucast_eq take_bit_nat_eq_self)
  from n m show "(ucast u :: 8 word) < 0x80"
    by (simp add: word_less_nat_alt)
  have "unat (ucast (ucast u :: 8 word) :: 16 word) = unat u"
    using n m by (simp add: unsigned_ucast_eq unsigned_take_bit_eq take_bit_nat_eq_self)
  then show "ucast (ucast u :: 8 word) = u"
    by (simp add: word_unat_eq_iff)
qed

lemma toyFromUnits_toyUnit: "toyFromUnits (toyUnit u @ bs) = u # toyFromUnits bs"
  by (simp add: toyUnit_def toyUnit_split toyUnit_small)

lemma toyFromUnits_toyUnits [simp]: "toyFromUnits (toyUnits s) = s"
  by (induction s) (simp_all add: toyUnits_def toyFromUnits_toyUnit)

lemma toy_utf8_correct: "utf8_correct toyNode"
  by (simp add: utf8_correct_def toyNode_def toyUtf8_def)

lemma decNat_encNat [simp]: "decNat (encNat n @ r) = (n, r)"
  by (simp add: decNat_def encNat_def takeWhile_append dropWhile_append)

lemma decStr_encStr [simp]: "decStr (encStr s @ r) = (s, r)"
  by (simp add: decStr_def encStr_def)

lemma decEntries_encEntries [simp]:
  "decEntries (length entries) (concat (map encEntry entries) @ r) = (entries, r)"
proof (induction entries)
  case Nil
  show ?case by simp
next
  case (Cons a entries)
  have "(fst a, \<lparr> encryptedValue = encryptedValue (snd a),
      encryptedField.iv = encryptedField.iv (snd a),
      encryptedField.authTag = encryptedField.authTag (snd a), hash = hash (snd a) \<rparr>) = a"
    by (simp add: prod_eq_iff)
  with Cons show ?case
    by (simp add: encEntry_def)
qed

lemma toyParse_toyStringify: "toyParse (toyStringify pl) = Inr pl"
proof -
  have "decStr (encStr (payload.algorithm pl)) = (payload.algorithm pl, [])"
    using decStr_encStr [of "payload.algorithm pl" "[]"] by simp
  then show ?thesis
    by (simp add: toyParse_def toyStringify_def)
qed

lemma isWellFormed_toyStringify: "isWellFormed (toyStringify pl)"
  by (simp add: toyStringify_def)

lemma toy_json_correct: "json_correct toyNode"
  by (simp add: json_correct_def toyNode_def toyParse_toyStringify isWellFormed_toyStringify)

lemma toyUnits_ascii:
  "list_all (\<lambda>c. (of_char c :: nat) < 128) t \<Longrightarrow>
   toyUnits (ascii t) = map (\<lambda>c. of_nat (of_char c)) t"
proof (induction t)
  case Nil
  show ?case by (simp add: toyUnits_def ascii_def)
next
  case (Cons c t)
  then have c: "(of_char c :: nat) < 128"
    by simp
  then have "(of_nat (of_char c) :: 16 word) < 0x80"
    by (simp add: word_less_nat_alt unat_ascii_unit)
  moreover have "(ucast (of_nat (of_char c) :: 16 word) :: 8 word) = of_nat (of_char c)"
    using c by (simp add: unsigned_of_nat take_bit_nat_eq_self)
  ultimately show ?case
    using Cons by (simp add: toyUnits_def ascii_def toyUnit_def)
qed

lemma toyUtf8_ascii:
  "list_all (\<lambda>c. (of_char c :: nat) < 128) t \<Longrightarrow>
   toyUtf8 (ascii t) = map (\<lambda>c. of_nat (of_char c)) t"
  by (simp add: toyUtf8_def toyUnits_ascii)

lemma toyUtf8_key0: "length (toyUtf8 key0) = 32"
  by (simp add: key0_def toyUtf8_ascii)

lemma newEncryptionService_key0:
  "newEncryptionService toyNode key0 = Inr (utf8 toyNode key0)"
  by (simp add: newEncryptionService_def toyNode_def toyUtf8_key0)


section \<open>Field encryption\<close>

lemma encryptField_fst: "fst (encryptField N key P e) = encipher N key (stake 16 e) P"
  by (simp add: encryptField_def randomBytes_def)

lemma encryptField_snd: "snd (encryptField N key P e) = sdrop 16 e"
  by (simp add: encryptField_def randomBytes_def)

lemma encipher_fields:
  "encryptedValue (encipher N key ivBytes P) =
     toHex (fst (aesGcmEncrypt N key ivBytes (utf8 N P)))"
  "encryptedField.iv (encipher N key ivBytes P) = toHex ivBytes"
  "encryptedField.authTag (encipher N key ivBytes P) =
     toHex (snd (aesGcmEncrypt N key ivBytes (utf8 N P)))"
  "hash (encipher N key ivBytes P) = toHex (sha256 N (utf8 N P))"
  by (simp_all add: encipher_def case_prod_beta)

lemma decipher_encipher:
  assumes "gcm_correct N" and "utf8_correct N" and "length key = 32" and "length ivBytes = 16"
  shows "decipher N key (encipher N key ivBytes P) = Inr (toWellFormed P)"
proof -
  from assms(1,3,4) have "aesGcmDecrypt N key ivBytes
      (snd (aesGcmEncrypt N key ivBytes (utf8 N P)))
      (fst (aesGcmEncrypt N key ivBytes (utf8 N P))) = Inr (utf8 N P)"
    by (simp add: gcm_correct_def)
  moreover from assms(2) have "fromUtf8 N (utf8 N P) = toWellFormed P"
    by (simp add: utf8_correct_def)
  ultimately show ?thesis
    by (simp add: decipher_def encipher_fields)
qed

lemma decryptField_encryptField:
  assumes "gcm_correct N" and "utf8_correct N" and "length key = 32"
  shows "decryptField N key (fst (encryptField N key P e)) = Inr (toWellFormed P)"
  using decipher_encipher [OF assms, of "stake 16 e" P]
  by (simp add: decryptField_def encryptField_fst)

text \<open>
  C6, as stated, fails: the plaintext is written to the cipher as UTF-8, and a string
  with a lone surrogate has no UTF-8 form, so the lone surrogate is encrypted, and
  comes back, as U+FFFD. For the one-unit string \<^verbatim>\<open>'\uD800'\<close> the round trip returns
  \<^verbatim>\<open>'\uFFFD'\<close>.
\<close>

theorem field_roundtrip_lone_surrogate_counterexample:
  "gcm_correct toyNode \<and> utf8_correct toyNode \<and>
   newEncryptionService toyNode key0 = Inr (utf8 toyNode key0) \<and>
   decryptField toyNode (utf8 toyNode key0)
     (fst (encryptField toyNode (utf8 toyNode key0) [0xD800] zeros)) = Inr [0xFFFD] \<and>
   [0xFFFD] \<noteq> ([0xD800] :: jsstring)"
proof -
  have len: "length (utf8 toyNode key0) = 32"
    using newEncryptionService_Inr [OF newEncryptionService_key0] by simp
  have "toWellFormed [0xD800] = [0xFFFD]"
    by (simp add: isHigh_def)
  with decryptField_encryptField [OF toy_gcm_correct toy_utf8_correct len, of "[0xD800]" zeros]
  have "decryptField toyNode (utf8 toyNode key0)
     (fst (encryptField toyNode (utf8 toyNode key0) [0xD800] zeros)) = Inr [0xFFFD]"
    by simp
  then show ?thesis
    using toy_gcm_correct toy_utf8_correct newEncryptionService_key0 by simp
qed

text \<open>
  C6, amended. For a service constructed from a 32-byte key, AES-256-GCM that decrypts
  what it encrypted, and UTF-8 that reads back what it wrote, \<open>decryptField\<close> of
  \<open>encryptField P\<close> returns \<open>P\<close> with every lone surrogate replaced by U+FFFD, for
  every plaintext \<open>P\<close> and every state of the random source; so it returns \<open>P\<close>
  itself for every \<open>P\<close> without a lone surrogate. The IV of the field is the next 16
  bytes of the random source, which the call consumes, so the next call draws the bytes
  after them.
\<close>

theorem field_encryption_roundtrip:
  assumes "gcm_correct N" and "utf8_correct N"
    and "newEncryptionService N encryptionKey = Inr key"
  shows "decryptField N key (fst (encryptField N key P e)) = Inr (toWellFormed P) \<and>
         (isWellFormed P \<longrightarrow> decryptField N key (fst (encryptField N key P e)) = Inr P) \<and>
         length key = 32 \<and>
         fromHex (encryptedField.iv (fst (encryptField N key P e))) = stake 16 e \<and>
         length (stake 16 e) = 16 \<and>
         snd (encryptField N key P e) = sdrop 16 e"
proof -
  from assms(3) have len: "length key = 32"
    by (simp add: newEncryptionService_Inr)
  have "decryptField N key (fst (encryptField N key P e)) = Inr (toWellFormed P)"
    using assms(1,2) len by (rule decryptField_encryptField)
  with len show ?thesis
    by (simp add: encryptField_fst encryptField_snd encipher_fields isWellFormed_def)
qed

theorem field_encryption_roundtrip_witness:
  "gcm_correct toyNode \<and> utf8_correct toyNode \<and>
   newEncryptionService toyNode key0 = Inr (utf8 toyNode key0) \<and>
   isWellFormed (ascii ''alice'') \<and>
   decryptField toyNode (utf8 toyNode key0)
     (fst (encryptField toyNode (utf8 toyNode key0) (ascii ''alice'') zeros)) =
     Inr (ascii ''alice'')"
  using field_encryption_roundtrip [OF toy_gcm_correct toy_utf8_correct
      newEncryptionService_key0, of "ascii ''alice''" zeros]
    toy_gcm_correct toy_utf8_correct newEncryptionService_key0
  by simp

text \<open>
  C7. For a service constructed from a 32-byte key, and AES-256-GCM that detects a flipped
  bit, take the field that \<open>encryptField P\<close> produced and flip any one bit of its
  ciphertext, or any one bit of its authentication tag (the bits of the bytes that
  \<open>encryptedValue\<close> and \<open>authTag\<close> hold in hex): \<open>decryptField\<close> of the modified
  field fails with \<open>Failed to decrypt data\<close>; it returns no plaintext.
\<close>

theorem tampered_field_rejected:
  assumes "gcm_detects_flips N" and "newEncryptionService N encryptionKey = Inr key"
  shows "(i < 8 * length (fromHex (encryptedValue (fst (encryptField N key P e)))) \<longrightarrow>
            decryptField N key (flipCiphertextBit i (fst (encryptField N key P e))) =
              Inl (Error ''Failed to decrypt data'')) \<and>
         (i < 8 * length (fromHex (encryptedField.authTag (fst (encryptField N key P e)))) \<longrightarrow>
            decryptField N key (flipAuthTagBit i (fst (encryptField N key P e))) =
              Inl (Error ''Failed to decrypt data''))"
proof -
  let ?ct = "fst (aesGcmEncrypt N key (stake 16 e) (utf8 N P))"
  let ?tag = "snd (aesGcmEncrypt N key (stake 16 e) (utf8 N P))"
  from assms(2) have len: "length key = 32"
    by (simp add: newEncryptionService_Inr)
  have l16: "length (stake 16 e) = 16"
    by simp
  have a: "i < 8 * length ?ct \<Longrightarrow>
      isl (aesGcmDecrypt N key (stake 16 e) ?tag (flipBit i ?ct))"
    using assms(1) len l16 unfolding gcm_detects_flips_def by blast
  have b: "i < 8 * length ?tag \<Longrightarrow>
      isl (aesGcmDecrypt N key (stake 16 e) (flipBit i ?tag) ?ct)"
    using assms(1) len l16 unfolding gcm_detects_flips_def by blast
  show ?thesis
    using a b
    by (auto simp: decryptField_def decipher_def encryptField_fst encipher_fields
        flipCiphertextBit_def flipAuthTagBit_def isl_def)
qed

theorem tampered_field_rejected_witness:
  "gcm_detects_flips toyNode \<and> newEncryptionService toyNode key0 = Inr (utf8 toyNode key0) \<and>
   3 < 8 * length (fromHex (encryptedValue
         (fst (encryptField toyNode (utf8 toyNode key0) (ascii ''alice'') zeros)))) \<and>
   decryptField toyNode (utf8 toyNode key0)
     (flipCiphertextBit 3
        (fst (encryptField toyNode (utf8 toyNode key0) (ascii ''alice'') zeros))) =
     Inl (Error ''Failed to decrypt data'') \<and>
   3 < 8 * length (fromHex (encryptedField.authTag
         (fst (encryptField toyNode (utf8 toyNode key0) (ascii ''alice'') zeros)))) \<and>
   decryptField toyNode (utf8 toyNode key0)
     (flipAuthTagBit 3
        (fst (encryptField toyNode (utf8 toyNode key0) (ascii ''alice'') zeros))) =
     Inl (Error ''Failed to decrypt data'')"
proof -
  have u: "utf8 toyNode (ascii ''alice'') = map (\<lambda>c. of_nat (of_char c)) ''alice''"
    by (simp add: toyNode_def toyUtf8_ascii)
  have h1: "3 < 8 * length (fromHex (encryptedValue
         (fst (encryptField toyNode (utf8 toyNode key0) (ascii ''alice'') zeros))))"
    by (simp add: encryptField_fst encipher_fields u) (simp add: toyNode_def toyEncrypt_def)
  have h2: "3 < 8 * length (fromHex (encryptedField.authTag
         (fst (encryptField toyNode (utf8 toyNode key0) (ascii ''alice'') zeros))))"
    by (simp add: encryptField_fst encipher_fields u) (simp add: toyNode_def toyEncrypt_def)
  show ?thesis
    using h1 h2 toy_gcm_detects_flips newEncryptionService_key0
      tampered_field_rejected [OF toy_gcm_detects_flips newEncryptionService_key0,
        of 3 "ascii ''alice''" zeros]
    by simp
qed


section \<open>The secure envelope\<close>

lemma map_of_assign:
  "map_of (assign name v obj) =
     (if name = ascii ''__proto__'' then map_of obj else (map_of obj)(name \<mapsto> v))"
  by (simp add: assign_def update_conv')

lemma distinct_assign:
  "distinct (map fst obj) \<Longrightarrow> distinct (map fst (assign name v obj))"
  by (simp add: assign_def distinct_update)

lemma encryptEntries_distinct:
  "distinct (map fst acc) \<Longrightarrow> distinct (map fst (encryptEntries N k ivb F acc))"
  by (induction N k ivb F acc rule: encryptEntries.induct) (simp_all add: distinct_assign)

lemma decryptEntries_distinct:
  "distinct (map fst acc) \<Longrightarrow> distinct (map fst (decryptEntries N k efs acc))"
  by (induction N k efs acc rule: decryptEntries.induct) (simp_all add: distinct_assign)

lemma encryptEntries_proto:
  "map_of (encryptEntries N k ivb F acc) (ascii ''__proto__'') =
   map_of acc (ascii ''__proto__'')"
  by (induction N k ivb F acc rule: encryptEntries.induct) (simp_all add: map_of_assign)

lemma encryptEntries_other:
  assumes "distinct (map fst F)" and "name \<noteq> ascii ''__proto__''"
  shows "map_of (encryptEntries N k ivb F acc) name =
           (case map_of F name of
              Some v \<Rightarrow> if v \<noteq> [] then Some (encipher N k ivb v) else map_of acc name
            | None \<Rightarrow> map_of acc name)"
  using assms(1)
proof (induction F arbitrary: acc)
  case Nil
  show ?case by simp
next
  case (Cons a F)
  obtain n v where a: "a = (n, v)" by (cases a)
  from Cons.prems a have fresh: "map_of F n = None" and d: "distinct (map fst F)"
    by (simp_all add: map_of_eq_None_iff)
  show ?case
  proof (cases "name = n")
    case True
    with fresh have "map_of F name = None"
      by simp
    then have "map_of (encryptEntries N k ivb F acc') name = map_of acc' name" for acc'
      by (simp add: Cons.IH [OF d])
    then show ?thesis
      using True assms(2) by (simp add: a map_of_assign)
  next
    case False
    then show ?thesis
      by (simp add: a Cons.IH [OF d] map_of_assign split: option.splits)
  qed
qed

lemma encryptEntries_map_of:
  assumes "distinct (map fst F)"
  shows "map_of (encryptEntries N k ivb F acc) name =
           (case map_of F name of
              Some v \<Rightarrow> if v \<noteq> [] \<and> name \<noteq> ascii ''__proto__''
                        then Some (encipher N k ivb v) else map_of acc name
            | None \<Rightarrow> map_of acc name)"
proof (cases "name = ascii ''__proto__''")
  case True
  then show ?thesis
    by (simp add: encryptEntries_proto split: option.splits)
next
  case False
  then show ?thesis
    by (simp add: encryptEntries_other [OF assms] split: option.splits)
qed

lemma decryptEntries_proto:
  "map_of (decryptEntries N k efs acc) (ascii ''__proto__'') =
   map_of acc (ascii ''__proto__'')"
  by (induction N k efs acc rule: decryptEntries.induct) (simp_all add: map_of_assign)

lemma decryptEntries_other:
  assumes "distinct (map fst efs)" and "name \<noteq> ascii ''__proto__''"
  shows "map_of (decryptEntries N k efs acc) name =
           (case map_of efs name of
              Some ef \<Rightarrow> Some (decryptValue N k ef)
            | None \<Rightarrow> map_of acc name)"
  using assms(1)
proof (induction efs arbitrary: acc)
  case Nil
  show ?case by simp
next
  case (Cons a efs)
  obtain n ef where a: "a = (n, ef)" by (cases a)
  from Cons.prems a have fresh: "map_of efs n = None" and d: "distinct (map fst efs)"
    by (simp_all add: map_of_eq_None_iff)
  show ?case
  proof (cases "name = n")
    case True
    with fresh have "map_of efs name = None"
      by simp
    then have "map_of (decryptEntries N k efs acc') name = map_of acc' name" for acc'
      by (simp add: Cons.IH [OF d])
    then show ?thesis
      using True assms(2) by (simp add: a map_of_assign)
  next
    case False
    then show ?thesis
      by (simp add: a Cons.IH [OF d] map_of_assign split: option.splits)
  qed
qed

lemma decryptEntries_map_of:
  assumes "distinct (map fst efs)"
  shows "map_of (decryptEntries N k efs acc) name =
           (case map_of efs name of
              Some ef \<Rightarrow> if name \<noteq> ascii ''__proto__''
                         then Some (decryptValue N k ef) else map_of acc name
            | None \<Rightarrow> map_of acc name)"
proof (cases "name = ascii ''__proto__''")
  case True
  then show ?thesis
    by (simp add: decryptEntries_proto split: option.splits)
next
  case False
  then show ?thesis
    by (simp add: decryptEntries_other [OF assms] split: option.splits)
qed

lemma decryptValue_encipher:
  assumes "gcm_correct N" and "utf8_correct N" and "length k = 32" and "length ivb = 16"
  shows "decryptValue N k (encipher N k ivb v) = toWellFormed v"
  by (simp add: decryptValue_def decipher_encipher [OF assms])

text \<open>The customer data that the partner is to obtain, as a list of entries.\<close>

lemma delivered_map_of:
  "map_of (map (\<lambda>(name, v). (name, toWellFormed v))
             (filter (\<lambda>(name, v). v \<noteq> [] \<and> name \<noteq> ascii ''__proto__'') F)) name =
     (case map_of (filter (\<lambda>(name, v). v \<noteq> [] \<and> name \<noteq> ascii ''__proto__'') F) name of
        Some v \<Rightarrow> Some (toWellFormed v)
      | None \<Rightarrow> None)"
  by (induction F) auto

lemma map_of_filter_distinct:
  assumes "distinct (map fst F)"
  shows "map_of (filter (\<lambda>(name, v). P name v) F) name =
           (case map_of F name of
              Some v \<Rightarrow> if P name v then Some v else None
            | None \<Rightarrow> None)"
  using assms
proof (induction F)
  case Nil
  show ?case by simp
next
  case (Cons a F)
  obtain n v where a: "a = (n, v)" by (cases a)
  from Cons.prems a have fresh: "map_of F n = None" and d: "distinct (map fst F)"
    by (simp_all add: map_of_eq_None_iff)
  show ?case
  proof (cases "name = n")
    case True
    with fresh have "map_of F name = None"
      by simp
    then have "map_of (filter (\<lambda>(name, v). P name v) F) name = None"
      by (simp add: Cons.IH [OF d])
    then show ?thesis
      using True by (simp add: a)
  next
    case False
    then show ?thesis
      by (simp add: a Cons.IH [OF d])
  qed
qed

lemma delivered_distinct:
  assumes "distinct (map fst F)"
  shows "distinct (map fst (map (\<lambda>(name, v). (name, toWellFormed v))
                  (filter (\<lambda>(name, v). v \<noteq> [] \<and> name \<noteq> ascii ''__proto__'') F)))"
proof -
  have "fst \<circ> (\<lambda>(name, v). (name, toWellFormed v)) = (fst :: jsstring \<times> jsstring \<Rightarrow> jsstring)"
    by (simp add: fun_eq_iff)
  with assms show ?thesis
    by (simp add: distinct_map_filter)
qed

lemma roundtrip_entries:
  assumes "gcm_correct N" and "utf8_correct N" and "length k = 32" and "length ivb = 16"
    and "distinct (map fst F)"
    and "distinct (map fst efs)"
    and "map_of efs = map_of (encryptEntries N k ivb F [])"
  shows "distinct (map fst (decryptEntries N k efs [])) \<and>
         set (decryptEntries N k efs []) =
           set (map (\<lambda>(name, v). (name, toWellFormed v))
                  (filter (\<lambda>(name, v). v \<noteq> [] \<and> name \<noteq> ascii ''__proto__'') F))"
proof -
  let ?D = "decryptEntries N k efs []"
  let ?E = "map (\<lambda>(name, v). (name, toWellFormed v))
              (filter (\<lambda>(name, v). v \<noteq> [] \<and> name \<noteq> ascii ''__proto__'') F)"
  have dD: "distinct (map fst ?D)"
    by (rule decryptEntries_distinct) simp
  have dE: "distinct (map fst ?E)"
    using assms(5) by (rule delivered_distinct)
  have "map_of ?D name = map_of ?E name" for name
  proof -
    have "map_of ?D name =
        (case map_of (encryptEntries N k ivb F []) name of
           Some ef \<Rightarrow> if name \<noteq> ascii ''__proto__''
                      then Some (decryptValue N k ef) else None
         | None \<Rightarrow> None)"
      by (simp add: decryptEntries_map_of [OF assms(6)] assms(7) split: option.splits)
    also have "\<dots> = (case map_of F name of
              Some v \<Rightarrow> if v \<noteq> [] \<and> name \<noteq> ascii ''__proto__''
                        then Some (toWellFormed v) else None
            | None \<Rightarrow> None)"
      by (simp add: encryptEntries_map_of [OF assms(5)]
          decryptValue_encipher [OF assms(1-4)] split: option.splits)
    also have "\<dots> = map_of ?E name"
      by (simp add: delivered_map_of map_of_filter_distinct [OF assms(5)]
          split: option.splits)
    finally show ?thesis .
  qed
  then have "map_of ?D = map_of ?E"
    by (rule ext)
  with dD dE have "set ?D = set ?E"
    by (simp add: map_of_inject_set)
  with dD show ?thesis
    by simp
qed

lemma rsa_keypairD:
  assumes "rsa_keypair N pub priv" and "length seed = 32" and "length message = 32"
  shows "\<exists>wrapped. publicEncrypt N (toPem pub) seed message = Inr wrapped \<and>
           privateDecrypt N priv wrapped = Inr message"
proof (cases "publicEncrypt N (toPem pub) seed message")
  case (Inl err)
  from assms have "case publicEncrypt N (toPem pub) seed message of
      Inl err \<Rightarrow> False | Inr wrapped \<Rightarrow> privateDecrypt N priv wrapped = Inr message"
    unfolding rsa_keypair_def by blast
  with Inl show ?thesis by simp
next
  case (Inr wrapped)
  from assms have "case publicEncrypt N (toPem pub) seed message of
      Inl err \<Rightarrow> False | Inr wrapped \<Rightarrow> privateDecrypt N priv wrapped = Inr message"
    unfolding rsa_keypair_def by blast
  with Inr show ?thesis by simp
qed

lemma json_correctD:
  assumes "json_correct N" and "distinct (map fst (encryptedFields pl))"
  shows "toWellFormed (stringify N pl) = stringify N pl \<and>
         (\<exists>pl'. parse N (stringify N pl) = Inr pl' \<and>
            distinct (map fst (encryptedFields pl')) \<and>
            map_of (encryptedFields pl') = map_of (encryptedFields pl) \<and>
            tempKey pl' = tempKey pl \<and> payload.algorithm pl' = payload.algorithm pl)"
proof -
  from assms have w: "isWellFormed (stringify N pl)"
    and c: "case parse N (stringify N pl) of
           Inl message \<Rightarrow> False
         | Inr pl' \<Rightarrow>
             distinct (map fst (encryptedFields pl')) \<and>
             map_of (encryptedFields pl') = map_of (encryptedFields pl) \<and>
             tempKey pl' = tempKey pl \<and>
             payload.algorithm pl' = payload.algorithm pl"
    unfolding json_correct_def by blast+
  from c have "\<exists>pl'. parse N (stringify N pl) = Inr pl' \<and>
            distinct (map fst (encryptedFields pl')) \<and>
            map_of (encryptedFields pl') = map_of (encryptedFields pl) \<and>
            tempKey pl' = tempKey pl \<and> payload.algorithm pl' = payload.algorithm pl"
    by (cases "parse N (stringify N pl)") simp_all
  with w show ?thesis
    by (simp add: isWellFormed_def)
qed

lemma encryptWithPublicKey_unfold:
  "encryptWithPublicKey N data pub e =
     (case publicEncrypt N (toPem pub) (stake 32 (sdrop 16 (sdrop 32 e))) (stake 32 e) of
        Inl message \<Rightarrow> (Inl (Error ''Failed to encrypt data with public key''),
                       sdrop 32 (sdrop 16 (sdrop 32 e)))
      | Inr wrapped \<Rightarrow>
          (Inr \<lparr> encryptedData = toBase64 N (fst (aesGcmEncrypt N (stake 32 e)
                     (stake 16 (sdrop 32 e)) (utf8 N data))),
                 envelope.iv = toBase64 N (stake 16 (sdrop 32 e)),
                 envelope.authTag = toBase64 N (snd (aesGcmEncrypt N (stake 32 e)
                     (stake 16 (sdrop 32 e)) (utf8 N data))),
                 encryptedKey = toBase64 N wrapped,
                 envelope.algorithm = ''RSA-OAEP-SHA256+AES-256-GCM'',
                 encryptionType = None \<rparr>, sdrop 32 (sdrop 16 (sdrop 32 e))))"
  unfolding encryptWithPublicKey_def randomBytes_def Let_def case_prod_beta fst_conv snd_conv
  by (rule refl)

lemma encryptWithPublicKey_eq:
  assumes "rsa_keypair N pub priv"
  shows "\<exists>wrapped. privateDecrypt N priv wrapped = Inr (stake 32 e) \<and>
     encryptWithPublicKey N data pub e =
       (Inr \<lparr> encryptedData = toBase64 N (fst (aesGcmEncrypt N (stake 32 e) (stake 16 (sdrop 32 e)) (utf8 N data))),
              envelope.iv = toBase64 N (stake 16 (sdrop 32 e)),
              envelope.authTag = toBase64 N (snd (aesGcmEncrypt N (stake 32 e) (stake 16 (sdrop 32 e)) (utf8 N data))),
              encryptedKey = toBase64 N wrapped,
              envelope.algorithm = ''RSA-OAEP-SHA256+AES-256-GCM'',
              encryptionType = None \<rparr>, sdrop 80 e)"
proof -
  have l: "length (stake 32 (sdrop 16 (sdrop 32 e))) = 32" "length (stake 32 e) = 32"
    by simp_all
  from rsa_keypairD [OF assms l]
  obtain wrapped where
    w: "publicEncrypt N (toPem pub) (stake 32 (sdrop 16 (sdrop 32 e))) (stake 32 e) = Inr wrapped"
    and d: "privateDecrypt N priv wrapped = Inr (stake 32 e)"
    by blast
  have s: "sdrop 32 (sdrop 16 (sdrop 32 e)) = sdrop 80 e"
    by simp
  have "encryptWithPublicKey N data pub e =
       (Inr \<lparr> encryptedData = toBase64 N (fst (aesGcmEncrypt N (stake 32 e) (stake 16 (sdrop 32 e)) (utf8 N data))),
              envelope.iv = toBase64 N (stake 16 (sdrop 32 e)),
              envelope.authTag = toBase64 N (snd (aesGcmEncrypt N (stake 32 e) (stake 16 (sdrop 32 e)) (utf8 N data))),
              encryptedKey = toBase64 N wrapped,
              envelope.algorithm = ''RSA-OAEP-SHA256+AES-256-GCM'',
              encryptionType = None \<rparr>, sdrop 80 e)"
    unfolding encryptWithPublicKey_unfold w s by simp
  with d show ?thesis by blast
qed

lemma decryptHybridData_encryptWithPublicKey:
  assumes "gcm_correct N" and "base64_correct N" and "utf8_correct N"
    and "rsa_keypair N pub priv"
    and "toWellFormed data = data"
    and "encryptWithPublicKey N data pub e = (Inr env, e')"
  shows "decryptHybridData N (Some priv) (env\<lparr>encryptionType := t\<rparr>) =
           (case parse N data of
              Inl message \<Rightarrow> Inl (Error (''Failed to decrypt data: '' @ message))
            | Inr pl \<Rightarrow> Inr pl)"
proof -
  from encryptWithPublicKey_eq [OF assms(4), of e data] assms(6)
  obtain wrapped where
    d: "privateDecrypt N priv wrapped = Inr (stake 32 e)"
    and env: "env = \<lparr> encryptedData = toBase64 N (fst (aesGcmEncrypt N (stake 32 e)
                  (stake 16 (sdrop 32 e)) (utf8 N data))),
              envelope.iv = toBase64 N (stake 16 (sdrop 32 e)),
              envelope.authTag = toBase64 N (snd (aesGcmEncrypt N (stake 32 e)
                  (stake 16 (sdrop 32 e)) (utf8 N data))),
              encryptedKey = toBase64 N wrapped,
              envelope.algorithm = ''RSA-OAEP-SHA256+AES-256-GCM'',
              encryptionType = None \<rparr>"
    by auto
  have g: "aesGcmDecrypt N (stake 32 e) (stake 16 (sdrop 32 e))
      (snd (aesGcmEncrypt N (stake 32 e) (stake 16 (sdrop 32 e)) (utf8 N data)))
      (fst (aesGcmEncrypt N (stake 32 e) (stake 16 (sdrop 32 e)) (utf8 N data))) =
      Inr (utf8 N data)"
    using assms(1) by (simp add: gcm_correct_def)
  from assms(2) have b: "\<And>bs. fromBase64 N (toBase64 N bs) = bs"
    by (simp add: base64_correct_def)
  from assms(3,5) have u: "fromUtf8 N (utf8 N data) = data"
    by (simp add: utf8_correct_def)
  show ?thesis
    by (simp add: decryptHybridData_def env b d g u split: sum.splits)
qed

lemma encryptCustomerFieldsSecure_eq:
  assumes "rsa_keypair N pub priv"
  shows "\<exists>env. encryptWithPublicKey N
            (stringify N \<lparr> encryptedFields =
                 encryptEntries N (stake 32 e) (stake 16 (sdrop 32 e)) F [],
               tempKey = toBase64 N (stake 32 e),
               payload.algorithm = ''AES-256-GCM-TEMP-KEY'' \<rparr>) pub (sdrop 48 e) =
            (Inr env, sdrop 128 e) \<and>
          encryptCustomerFieldsSecure N F pub e =
            (Inr (env\<lparr>encryptionType := Some ''secure-temporary-key''\<rparr>), sdrop 128 e)"
proof -
  let ?pl = "\<lparr> encryptedFields = encryptEntries N (stake 32 e) (stake 16 (sdrop 32 e)) F [],
               tempKey = toBase64 N (stake 32 e),
               payload.algorithm = ''AES-256-GCM-TEMP-KEY'' \<rparr>"
  from encryptWithPublicKey_eq [OF assms, of "sdrop 48 e" "stringify N ?pl"]
  obtain env where "encryptWithPublicKey N (stringify N ?pl) pub (sdrop 48 e) =
      (Inr env, sdrop 128 e)"
    by (auto simp: sdrop_add)
  then show ?thesis
    by (simp add: encryptCustomerFieldsSecure_def randomBytes_def)
qed

lemma secure_roundtrip:
  assumes "gcm_correct N" and "base64_correct N" and "json_correct N" and "utf8_correct N"
    and "rsa_keypair N pub priv" and "distinct (map fst F)"
  shows "\<exists>env D. encryptCustomerFieldsSecure N F pub e = (Inr env, sdrop 128 e) \<and>
           decryptSecureData N (Some priv) env = Inr D \<and>
           distinct (map fst D) \<and>
           set D = set (map (\<lambda>(name, v). (name, toWellFormed v))
                     (filter (\<lambda>(name, v). v \<noteq> [] \<and> name \<noteq> ascii ''__proto__'') F)) \<and>
           embeddedTempKey N priv env = Some (toBase64 N (stake 32 e))"
proof -
  let ?k = "stake 32 e"
  let ?iv = "stake 16 (sdrop 32 e)"
  let ?pl = "\<lparr> encryptedFields = encryptEntries N ?k ?iv F [],
               tempKey = toBase64 N ?k,
               payload.algorithm = ''AES-256-GCM-TEMP-KEY'' \<rparr>"
  from encryptCustomerFieldsSecure_eq [OF assms(5), of e F]
  obtain env where w: "encryptWithPublicKey N (stringify N ?pl) pub (sdrop 48 e) =
      (Inr env, sdrop 128 e)"
    and s: "encryptCustomerFieldsSecure N F pub e =
      (Inr (env\<lparr>encryptionType := Some ''secure-temporary-key''\<rparr>), sdrop 128 e)"
    by blast
  have dpl: "distinct (map fst (encryptedFields ?pl))"
    by (simp add: encryptEntries_distinct)
  from json_correctD [OF assms(3) dpl]
  obtain pl' where wf: "toWellFormed (stringify N ?pl) = stringify N ?pl"
    and p: "parse N (stringify N ?pl) = Inr pl'"
    and d': "distinct (map fst (encryptedFields pl'))"
    and m: "map_of (encryptedFields pl') = map_of (encryptEntries N ?k ?iv F [])"
    and t: "tempKey pl' = toBase64 N ?k"
    and a: "payload.algorithm pl' = ''AES-256-GCM-TEMP-KEY''"
    by auto
  have h: "decryptHybridData N (Some priv)
      (env\<lparr>encryptionType := Some ''secure-temporary-key''\<rparr>) = Inr pl'"
    using decryptHybridData_encryptWithPublicKey [OF assms(1,2,4,5) wf w] p by simp
  from assms(2) have b: "fromBase64 N (toBase64 N ?k) = ?k"
    by (simp add: base64_correct_def)
  have lk: "length ?k = 32" and liv: "length ?iv = 16"
    by simp_all
  note r = roundtrip_entries [OF assms(1,4) lk liv assms(6) d' m]
  have "decryptSecureData N (Some priv)
      (env\<lparr>encryptionType := Some ''secure-temporary-key''\<rparr>) =
      Inr (decryptEntries N ?k (encryptedFields pl') [])"
    by (simp add: decryptSecureData_def h a t b)
  moreover have "embeddedTempKey N priv
      (env\<lparr>encryptionType := Some ''secure-temporary-key''\<rparr>) = Some (toBase64 N ?k)"
    by (simp add: embeddedTempKey_def h t)
  ultimately show ?thesis
    using s r by blast
qed

lemma encryptTwice_keys:
  assumes "gcm_correct N" and "base64_correct N" and "json_correct N" and "utf8_correct N"
    and "rsa_keypair N pub priv" and "distinct (map fst F)"
  shows "\<exists>first second. encryptTwice N F pub e = (Inr first, Inr second) \<and>
           embeddedTempKey N priv first = Some (toBase64 N (stake 32 e)) \<and>
           embeddedTempKey N priv second = Some (toBase64 N (stake 32 (sdrop 128 e)))"
proof -
  from secure_roundtrip [OF assms, of e]
  obtain first where f: "encryptCustomerFieldsSecure N F pub e = (Inr first, sdrop 128 e)"
    and kf: "embeddedTempKey N priv first = Some (toBase64 N (stake 32 e))"
    by blast
  from secure_roundtrip [OF assms, of "sdrop 128 e"]
  obtain second e2 where
    s: "encryptCustomerFieldsSecure N F pub (sdrop 128 e) = (Inr second, e2)"
    and ks: "embeddedTempKey N priv second = Some (toBase64 N (stake 32 (sdrop 128 e)))"
    by blast
  have "encryptTwice N F pub e = (Inr first, Inr second)"
    by (simp add: encryptTwice_def f s)
  with kf ks show ?thesis
    by blast
qed

lemma base64_inject:
  assumes "base64_correct N"
  shows "toBase64 N a = toBase64 N b \<longleftrightarrow> a = b"
proof
  assume "toBase64 N a = toBase64 N b"
  then have "fromBase64 N (toBase64 N a) = fromBase64 N (toBase64 N b)"
    by simp
  with assms show "a = b"
    by (simp add: base64_correct_def)
qed simp

lemma singleton_entries:
  assumes "distinct (map fst D)" and "set D = {x}"
  shows "D = [x]"
proof (cases D)
  case Nil
  with assms show ?thesis by simp
next
  case (Cons a D')
  with assms have a: "a = x" and sub: "set D' \<subseteq> {x}" and nin: "fst a \<notin> fst ` set D'"
    by auto
  from sub nin a have "D' = []"
    by (cases D') auto
  with Cons a show ?thesis by simp
qed






section \<open>The response to a partner data request\<close>

lemma addFields_no_match:
  assumes "\<forall>field \<in> set requestedFields.
      customer field = None \<and> (\<forall>mapped. fieldMap field = Some mapped \<longrightarrow> customer mapped = None)"
  shows "addFields customer requestedFields acc = acc"
  using assms by (induction requestedFields arbitrary: acc) (auto split: option.splits)

lemma includes_text_head: "includes_text s (x # xs) \<Longrightarrow> x \<in> set s"
proof (induction s)
  case Nil
  then show ?case by simp
next
  case (Cons a s)
  then show ?case by (cases "startsWith (a # s) (x # xs)") auto
qed

lemma looksEncrypted_quote: "looksEncrypted v \<Longrightarrow> 0x22 \<in> set v"
proof -
  assume "looksEncrypted v"
  then have "includes_text v (0x22 # ascii (''iv'' @ [CHR 0x22]))"
    by (simp add: looksEncrypted_def quoted_def ascii_def)
  then show ?thesis
    by (rule includes_text_head)
qed

lemma ascii_inject [simp]: "ascii s = ascii t \<longleftrightarrow> s = t"
proof
  assume "ascii s = ascii t"
  then have "map (\<lambda>u. char_of (unat u)) (ascii s) = map (\<lambda>u. char_of (unat u)) (ascii t)"
    by simp
  then show "s = t"
    by (simp only: latin1_ascii)
qed simp

lemma testData_plain: "\<forall>(name, v) \<in> set testData. \<not> looksEncrypted v"
proof -
  have "0x22 \<notin> set v" if "(name, v) \<in> set testData" for name v
    using that by (auto simp: testData_def ascii_def)
  then show ?thesis
    using looksEncrypted_quote by blast
qed

lemma decryptStored_plain:
  assumes "\<forall>(name, v) \<in> set obj. \<not> looksEncrypted v"
  shows "decryptStored N key obj acc = fold (\<lambda>(name, v). assign name v) obj acc"
  using assms by (induction obj arbitrary: acc) auto

lemma decryptStored_testData: "decryptStored N key testData [] = testData"
proof -
  have "fold (\<lambda>(name, v). assign name v) testData [] = testData"
    by (simp add: testData_def assign_def)
  then show ?thesis
    by (simp add: decryptStored_plain [OF testData_plain])
qed

lemma buildResponseData_no_match:
  assumes "\<forall>field \<in> set requestedFields.
      customer field = None \<and> (\<forall>mapped. fieldMap field = Some mapped \<longrightarrow> customer mapped = None)"
  shows "buildResponseData customer requestedFields = testData"
  by (simp add: buildResponseData_def addFields_no_match [OF assms])

lemma testData_fields:
  "distinct (map fst testData)"
  "\<forall>(name, v) \<in> set testData. v \<noteq> [] \<and> isWellFormed v \<and> name \<noteq> ascii ''__proto__''"
  by (simp_all add: testData_def) (simp add: ascii_def)

lemma testData_delivered:
  "map (\<lambda>(name, v). (name, toWellFormed v))
     (filter (\<lambda>(name, v). v \<noteq> [] \<and> name \<noteq> ascii ''__proto__'') testData) = testData"
proof -
  have "filter (\<lambda>(name, v). v \<noteq> [] \<and> name \<noteq> ascii ''__proto__'') testData = testData"
    using testData_fields(2) by (auto simp: filter_id_conv)
  moreover have "map (\<lambda>(name, v). (name, toWellFormed v)) testData = testData"
    using testData_fields(2) by (intro map_idI) (auto simp: isWellFormed_def)
  ultimately show ?thesis
    by simp
qed

lemma respond_no_match:
  assumes "\<forall>field \<in> set requestedFields.
      customer field = None \<and> (\<forall>mapped. fieldMap field = Some mapped \<longrightarrow> customer mapped = None)"
  shows "respond N key p customer requestedFields e =
           (\<lparr> encrypted = (fst (encryptResponse N p testData testData e) \<noteq> None),
              sentData = (case fst (encryptResponse N p testData testData e) of
                            Some env \<Rightarrow> Inl env
                          | None \<Rightarrow> Inr testData),
              sentMessage =
                (if truthy (callbackUrl p)
                 then ''Data sent via API response and pushed to partner endpoint''
                 else ''Data sent via API response only'') \<rparr>,
            if truthy (callbackUrl p) then Some testData else None)"
  by (simp add: respond_def buildResponseData_no_match [OF assms] decryptStored_testData
      case_prod_beta)

lemma encryptResponse_no_key:
  "\<not> truthy (publicKey p) \<Longrightarrow> encryptResponse N p responseData fully e = (None, ''none'')"
  by (simp add: encryptResponse_def)

lemma encryptResponse_secure:
  assumes "truthy (publicKey p)"
    and "encryptCustomerFieldsSecure N fully (the (publicKey p)) e = (Inr env, e')"
  shows "encryptResponse N p responseData fully e = (Some env, ''secure-temporary-key'')"
  using assms by (simp add: encryptResponse_def)

lemma encryptResponse_cases:
  "fst (encryptResponse N p responseData fully e) = None \<or>
   fst (encryptCustomerFieldsSecure N fully (the (publicKey p)) e) =
     Inr (the (fst (encryptResponse N p responseData fully e))) \<or>
   fst (encryptWithPublicKey N (stringifyData N responseData) (the (publicKey p))
          (snd (encryptCustomerFieldsSecure N fully (the (publicKey p)) e))) =
     Inr (the (fst (encryptResponse N p responseData fully e)))"
  by (auto simp: encryptResponse_def split: prod.splits sum.splits)






end
